theory Spec2Isabelle
  imports Main "HOL-Library.Word"
begin

section \<open>The onboarding story download (ts/util/downloadOnboardingStory.ts)\<close>

text \<open>
  The file holds two asynchronous functions, \<open>downloadOnboardingStory\<close> (the entry point)
  and \<open>continueDownloadingOnboardingStory\<close> (the listener it registers). Both only read
  local storage and call collaborators that live in other files. The embedding threads a
  \<open>world\<close> through the code (the key-value storage, the message store, the call counters
  of the clock and of the id generators, and the trace of every call the code makes), and
  takes the collaborators as the fields of an \<open>env\<close>. A rejected promise or a thrown
  error is the left injection of the result; \<open>await\<close> of a rejected promise returns it.
\<close>

subsection \<open>Data\<close>

text \<open>A \<open>Uint8Array\<close>; its \<open>byteLength\<close> is the length of the list.\<close>

type_synonym bytes = "8 word list"

datatype error =
  AssertionError string
  | TransportError string
  | IngestionError string
  | PersistenceError string
  | OtherError string

text \<open>
  \<open>AttachmentType\<close>: the three fields the code fills, and \<open>path\<close>, which the ingestion
  sets. \<open>size\<close> is written \<open>size_att\<close>.
\<close>

record AttachmentType =
  contentType :: string
  data :: "bytes option"
  size_att :: nat
  path :: "string option"

text \<open>
  Modelled from the spec: the constant \<open>IMAGE_JPEG\<close> of \<open>../types/MIME\<close>, which is not
  among the sources (spec 4.2 step 7: the JPEG content type).
\<close>

definition IMAGE_JPEG :: string where
  "IMAGE_JPEG = ''image/jpeg''"

text \<open>
  The manifest \<open>{ version, languages }\<close>, as the server's JSON gives it. The object
  \<open>languages\<close> is the finite map of its own properties; it inherits the properties of
  \<open>Object.prototype\<close>.
\<close>

record ManifestType =
  version :: string
  languages :: "string \<rightharpoonup> string list"

text \<open>
  The property names of \<open>Object.prototype\<close> (ECMAScript 20.1.3 and Annex B.2.2), which
  \<open>key in object\<close> and \<open>object[key]\<close> find on every object that has no own property of
  that name.
\<close>

definition objectPrototypeNames :: "string list" where
  "objectPrototypeNames =
     [''constructor'', ''hasOwnProperty'', ''isPrototypeOf'', ''propertyIsEnumerable'',
      ''toLocaleString'', ''toString'', ''valueOf'', ''__proto__'',
      ''__defineGetter__'', ''__defineSetter__'', ''__lookupGetter__'', ''__lookupSetter__'']"

text \<open>
  What \<open>manifest.languages[key]\<close> evaluates to: the filename list of an own property,
  the member of \<open>Object.prototype\<close> of that name (a function or an object, never a list),
  or \<open>undefined\<close>.
\<close>

datatype property_value =
  Filenames "string list"
  | PrototypeMember string
  | Undefined

definition hasProperty :: "(string \<rightharpoonup> string list) \<Rightarrow> string \<Rightarrow> bool" where
  "hasProperty object key = (key \<in> dom object \<or> key \<in> set objectPrototypeNames)"

definition getProperty :: "(string \<rightharpoonup> string list) \<Rightarrow> string \<Rightarrow> property_value" where
  "getProperty object key =
     (case object key of
        Some filenames \<Rightarrow> Filenames filenames
      | None \<Rightarrow> if key \<in> set objectPrototypeNames then PrototypeMember key else Undefined)"

text \<open>The signal conversation: \<open>signalConversation.id\<close> and \<open>signalConversation.get('uuid')\<close>.\<close>

record ConversationModel =
  id_conv :: string
  uuid_conv :: "string option"

text \<open>
  Modelled from the spec: the enums \<open>ReadStatus\<close> and \<open>SeenStatus\<close> of
  \<open>../messages/MessageReadStatus\<close> and \<open>../MessageSeenStatus\<close>, which are not among the
  sources (spec 3: the read and seen status, initially unread and unseen).
\<close>

datatype ReadStatus = Unread | Read | Viewed

datatype SeenStatus = NotApplicable | Unseen | Seen

text \<open>
  \<open>MessageAttributesType\<close>, with the thirteen attributes of \<open>partialMessage\<close>
  (\<open>id\<close> and \<open>type\<close> are written \<open>id_msg\<close> and \<open>type_msg\<close>). The timestamps are
  integers (milliseconds), \<open>received_at\<close> is a counter.
\<close>

record MessageAttributesType =
  attachments :: "AttachmentType list"
  canReplyToStory :: bool
  conversationId :: string
  id_msg :: string
  readStatus :: ReadStatus
  received_at :: nat
  received_at_ms :: int
  seenStatus :: SeenStatus
  sent_at :: int
  serverTimestamp :: int
  sourceUuid :: "string option"
  timestamp :: int
  type_msg :: string

text \<open>
  The two storage items the code touches, each a value or \<open>undefined\<close>
  (\<open>window.storage.get\<close>).
\<close>

record storage_items =
  hasViewedOnboardingStory :: "bool option"
  existingOnboardingStoryMessageIds :: "string list option"

text \<open>Every call the code makes to the outside, in the order of the calls.\<close>

datatype event =
  StorageGet string
  | StoragePut string "string list"
  | FindAndDeleteOnboardingStoryIfExists
  | RunStorageServiceSyncJob
  | EventsOnce string
  | LogInfo string
  | GetOnboardingStoryManifest
  | DownloadOnboardingStories string property_value
  | ProcessNewAttachment AttachmentType
  | GetOrCreateSignalConversation
  | SaveNewMessage MessageAttributesType
  | TriggerChange string

record world =
  storage :: storage_items
  messages :: "MessageAttributesType list"
  trace :: "event list"
  nowCalls :: nat
  uuidCalls :: nat
  counterCalls :: nat

text \<open>\<open>window.textsecure.server\<close>: the two requests the code sends.\<close>

record server_api =
  getOnboardingStoryManifest :: "error + ManifestType"
  downloadOnboardingStories :: "string \<Rightarrow> property_value \<Rightarrow> error + bytes list"

text \<open>
  The collaborators. The cleanup works on the storage and the message store and may
  reject; \<open>dateNow k\<close>, \<open>uuidGenerate k\<close> and \<open>incrementMessageCounter k\<close> are what the
  call number \<open>k\<close> (from 0, among the calls this file makes) of \<open>Date.now()\<close>, of
  \<open>UUID.generate().toString()\<close> and of \<open>window.Signal.Util.incrementMessageCounter()\<close>
  returns; the world counts these calls.
\<close>

record env =
  server :: "server_api option"
  getLocale :: string
  findAndDeleteOnboardingStoryIfExists ::
    "storage_items \<times> MessageAttributesType list \<Rightarrow>
       (error + unit) \<times> storage_items \<times> MessageAttributesType list"
  processNewAttachment :: "AttachmentType \<Rightarrow> error + AttachmentType"
  getOrCreateSignalConversation :: "error + ConversationModel"
  saveNewMessageBatcher_add :: "MessageAttributesType \<Rightarrow> error + unit"
  dateNow :: "nat \<Rightarrow> int"
  uuidGenerate :: "nat \<Rightarrow> string"
  incrementMessageCounter :: "nat \<Rightarrow> nat"

subsection \<open>Helpers\<close>

definition emit :: "event \<Rightarrow> world \<Rightarrow> world" where
  "emit e w = w\<lparr>trace := trace w @ [e]\<rparr>"

definition emits :: "event list \<Rightarrow> world \<Rightarrow> world" where
  "emits es w = w\<lparr>trace := trace w @ es\<rparr>"

text \<open>
  Modelled from the spec: \<open>strictAssert\<close> of \<open>./assert\<close>, which is not among the sources.
  Spec 4.2 step 1 and 7: the assertion is fatal for the continuation when the handle is
  not initialized, and it aborts the continuation only; so a missing value is an error
  the caller returns, and a present value is handed on.
\<close>

definition strictAssert :: "'a option \<Rightarrow> string \<Rightarrow> error + 'a" where
  "strictAssert condition message =
     (case condition of None \<Rightarrow> Inl (AssertionError message) | Some v \<Rightarrow> Inr v)"

text \<open>\<open>if (hasViewedOnboardingStory)\<close>: a boolean or \<open>undefined\<close> is truthy when it is \<open>true\<close>.\<close>

definition truthy_bool :: "bool option \<Rightarrow> bool" where
  "truthy_bool v = (v = Some True)"

text \<open>\<open>if (existingOnboardingStoryMessageIds)\<close>: an array is truthy, also the empty one.\<close>

definition truthy_array :: "'a list option \<Rightarrow> bool" where
  "truthy_array v = (v \<noteq> None)"

text \<open>
  \<open>Promise.all\<close> over promises made in index order: the results in that order, or a
  rejection (the first one in index order stands for the one that settles first).
\<close>

fun promise_all :: "(error + 'a) list \<Rightarrow> error + 'a list" where
  "promise_all [] = Inr []"
| "promise_all (Inl e # rs) = Inl e"
| "promise_all (Inr x # rs) =
     (case promise_all rs of Inl e \<Rightarrow> Inl e | Inr xs \<Rightarrow> Inr (x # xs))"

text \<open>\<open>await findAndDeleteOnboardingStoryIfExists(); return;\<close>\<close>

definition runCleanup :: "env \<Rightarrow> world \<Rightarrow> (error + unit) \<times> world" where
  "runCleanup env w =
     (let w1 = emit FindAndDeleteOnboardingStoryIfExists w;
          (r, st, ms) = findAndDeleteOnboardingStoryIfExists env (storage w1, messages w1)
      in (r, w1\<lparr>storage := st, messages := ms\<rparr>))"

subsection \<open>The entry point (lines 24 to 40)\<close>

definition downloadOnboardingStory :: "env \<Rightarrow> world \<Rightarrow> (error + unit) \<times> world" where
  "downloadOnboardingStory env w0 =
     (let w1 = emit (StorageGet ''hasViewedOnboardingStory'') w0;
          hasViewed = hasViewedOnboardingStory (storage w1)
      in if truthy_bool hasViewed then runCleanup env w1
         else
           let w2 = emit RunStorageServiceSyncJob w1;
               w3 = emit (EventsOnce ''storageService:syncComplete'') w2
           in (Inr (), w3))"

subsection \<open>The continuation (lines 42 to 137)\<close>

text \<open>
  Lines 71 to 74: \<open>userLocale in manifest.languages ? manifest.languages[userLocale] :
  manifest.languages.en\<close>, with the \<open>in\<close> and the member access of JavaScript.
\<close>

definition imageFilenames :: "string \<Rightarrow> ManifestType \<Rightarrow> property_value" where
  "imageFilenames userLocale manifest =
     (if hasProperty (languages manifest) userLocale
      then getProperty (languages manifest) userLocale
      else getProperty (languages manifest) ''en'')"

text \<open>Lines 85 to 89: the attachment made of one image buffer.\<close>

definition newAttachment :: "bytes \<Rightarrow> AttachmentType" where
  "newAttachment d =
     \<lparr>contentType = IMAGE_JPEG, data = Some d, size_att = length d, path = None\<rparr>"

text \<open>
  Modelled from the spec: the constructor \<open>window.Whisper.Message\<close> of
  \<open>../models/messages\<close>, which is not among the sources. Spec 3: a story message is
  created in memory with its attributes and then persisted; so the model object is the
  attributes it is given (\<open>message.attributes\<close>), and \<open>message.id\<close> is their id.
\<close>

definition Whisper_Message :: "MessageAttributesType \<Rightarrow> MessageAttributesType" where
  [simp]: "Whisper_Message attributes = attributes"

text \<open>
  Lines 100 to 119: the callback of \<open>attachments.map\<close>, for one attachment and its index.
  It reads the clock, makes an id and steps the message counter, once each.
\<close>

definition newStoryMessage ::
  "env \<Rightarrow> ConversationModel \<Rightarrow> world \<Rightarrow> AttachmentType \<Rightarrow> nat \<Rightarrow> MessageAttributesType \<times> world"
where
  "newStoryMessage env signalConversation w attachment index =
     (let ts = dateNow env (nowCalls w) + int index;
          partialMessage =
            \<lparr>attachments = [attachment],
             canReplyToStory = False,
             conversationId = id_conv signalConversation,
             id_msg = uuidGenerate env (uuidCalls w),
             readStatus = Unread,
             received_at = incrementMessageCounter env (counterCalls w),
             received_at_ms = ts,
             seenStatus = Unseen,
             sent_at = ts,
             serverTimestamp = ts,
             sourceUuid = uuid_conv signalConversation,
             timestamp = ts,
             type_msg = ''story''\<rparr>
      in (Whisper_Message partialMessage,
          w\<lparr>nowCalls := nowCalls w + 1, uuidCalls := uuidCalls w + 1,
            counterCalls := counterCalls w + 1\<rparr>))"

text \<open>Lines 99 to 120: \<open>attachments.map((attachment, index) => ...)\<close>, from \<open>index\<close> on.\<close>

fun storyMessages ::
  "env \<Rightarrow> ConversationModel \<Rightarrow> AttachmentType list \<Rightarrow> nat \<Rightarrow> world \<Rightarrow>
     MessageAttributesType list \<times> world"
where
  "storyMessages env signalConversation [] index w = ([], w)"
| "storyMessages env signalConversation (attachment # rest) index w =
     (let (m, w1) = newStoryMessage env signalConversation w attachment index;
          (ms, w2) = storyMessages env signalConversation rest (index + 1) w1
      in (m # ms, w2))"

text \<open>
  Lines 122 to 136: the attributes of every message go to the batcher; the messages
  whose write resolves are in the store. When all have resolved, each model triggers
  \<open>change\<close> and the list of the ids is put (\<open>window.storage.put\<close> resolves).
\<close>

definition saveAndCommit ::
  "env \<Rightarrow> MessageAttributesType list \<Rightarrow> world \<Rightarrow> (error + unit) \<times> world" where
  "saveAndCommit env ms w0 =
     (let w1 = emits (map SaveNewMessage ms) w0;
          written = filter (\<lambda>m. \<not> isl (saveNewMessageBatcher_add env m)) ms;
          w2 = w1\<lparr>messages := messages w1 @ written\<rparr>
      in case promise_all (map (saveNewMessageBatcher_add env) ms) of
           Inl e \<Rightarrow> (Inl e, w2)
         | Inr _ \<Rightarrow>
             let w3 = emits (map (\<lambda>m. TriggerChange (id_msg m)) ms) w2;
                 ids = map id_msg ms;
                 w4 = emit (StoragePut ''existingOnboardingStoryMessageIds'' ids) w3;
                 w5 = w4\<lparr>storage :=
                        (storage w4)\<lparr>existingOnboardingStoryMessageIds := Some ids\<rparr>\<rparr>;
                 w6 = emit (LogInfo ''downloadOnboardingStory: done'') w5
             in (Inr (), w6))"

text \<open>Lines 83 to 120: the ingestion of the buffers, the conversation, the messages.\<close>

definition ingestAndStore ::
  "env \<Rightarrow> bytes list \<Rightarrow> world \<Rightarrow> (error + unit) \<times> world" where
  "ingestAndStore env imageBuffers w0 =
     (let w1 = emit (LogInfo ''downloadOnboardingStory: downloaded stories:'') w0;
          w2 = emits (map (ProcessNewAttachment \<circ> newAttachment) imageBuffers) w1
      in case promise_all (map (processNewAttachment env \<circ> newAttachment) imageBuffers) of
           Inl e \<Rightarrow> (Inl e, w2)
         | Inr atts \<Rightarrow>
             let w3 = emit (LogInfo ''downloadOnboardingStory: getting signal conversation'') w2;
                 w4 = emit GetOrCreateSignalConversation w3
             in (case getOrCreateSignalConversation env of
                   Inl e \<Rightarrow> (Inl e, w4)
                 | Inr signalConversation \<Rightarrow>
                     let (ms, w5) = storyMessages env signalConversation atts 0 w4
                     in saveAndCommit env ms w5))"

text \<open>Lines 65 to 81: the locale, the manifest, the filenames, the download.\<close>

definition fetchAndStore ::
  "env \<Rightarrow> server_api \<Rightarrow> world \<Rightarrow> (error + unit) \<times> world" where
  "fetchAndStore env srv w0 =
     (let userLocale = getLocale env;
          w1 = emit GetOnboardingStoryManifest w0
      in case getOnboardingStoryManifest srv of
           Inl e \<Rightarrow> (Inl e, w1)
         | Inr manifest \<Rightarrow>
             let w2 = emit (LogInfo ''downloadOnboardingStory: got manifest version:'') w1;
                 names = imageFilenames userLocale manifest;
                 w3 = emit (DownloadOnboardingStories (version manifest) names) w2
             in (case downloadOnboardingStories srv (version manifest) names of
                   Inl e \<Rightarrow> (Inl e, w3)
                 | Inr imageBuffers \<Rightarrow> ingestAndStore env imageBuffers w3))"

text \<open>Lines 42 to 63, and the rest of the function through \<open>fetchAndStore\<close>.\<close>

definition continueDownloadingOnboardingStory ::
  "env \<Rightarrow> world \<Rightarrow> (error + unit) \<times> world" where
  "continueDownloadingOnboardingStory env w0 =
     (case strictAssert (server env) ''server not initialized'' of
        Inl e \<Rightarrow> (Inl e, w0)
      | Inr srv \<Rightarrow>
          let w1 = emit (StorageGet ''hasViewedOnboardingStory'') w0;
              hasViewed = hasViewedOnboardingStory (storage w1)
          in if truthy_bool hasViewed then runCleanup env w1
             else
               let w2 = emit (StorageGet ''existingOnboardingStoryMessageIds'') w1;
                   existing = existingOnboardingStoryMessageIds (storage w2)
               in if truthy_array existing
                  then (Inr (),
                        emit (LogInfo
                          ''downloadOnboardingStory: has existingOnboardingStoryMessageIds'') w2)
                  else fetchAndStore env srv w2)"

subsection \<open>What a run did\<close>

text \<open>The calls a run adds to the trace of the world it started in.\<close>

definition newEvents :: "world \<Rightarrow> (error + unit) \<times> world \<Rightarrow> event list" where
  "newEvents w0 r = drop (length (trace w0)) (trace (snd r))"

text \<open>The messages a run adds to the message store.\<close>

definition newMessages :: "world \<Rightarrow> (error + unit) \<times> world \<Rightarrow> MessageAttributesType list" where
  "newMessages w0 r = drop (length (messages w0)) (messages (snd r))"

text \<open>The messages handed to the batcher, and the storage writes, among some calls.\<close>

fun savedMessage :: "event \<Rightarrow> MessageAttributesType list" where
  "savedMessage (SaveNewMessage m) = [m]"
| "savedMessage _ = []"

definition savesOf :: "event list \<Rightarrow> MessageAttributesType list" where
  "savesOf es = concat (map savedMessage es)"

fun storagePut :: "event \<Rightarrow> (string \<times> string list) list" where
  "storagePut (StoragePut k v) = [(k, v)]"
| "storagePut _ = []"

definition putsOf :: "event list \<Rightarrow> (string \<times> string list) list" where
  "putsOf es = concat (map storagePut es)"

subsection \<open>Concrete collaborators and states\<close>

text \<open>
  A manifest with the English story only, a server that answers with it and with one
  three-byte image per filename (and rejects a request whose filenames are no list), an
  ingestion that gives the attachment a path, a cleanup that forgets the id list and
  removes its messages, a clock that stands still at 1000.
\<close>

definition demo_manifest :: ManifestType where
  "demo_manifest = \<lparr>version = ''v1'', languages = [''en'' \<mapsto> [''1.jpg'', ''2.jpg'']]\<rparr>"

definition demo_server :: server_api where
  "demo_server =
     \<lparr>getOnboardingStoryManifest = Inr demo_manifest,
      downloadOnboardingStories =
        (\<lambda>v names. case names of
           Filenames fs \<Rightarrow>
             Inr (map (\<lambda>f. if f = ''1.jpg'' then [0xFF, 0xD8, 1] else [0xFF, 0xD8, 2]) fs)
         | PrototypeMember k \<Rightarrow> Inl (TransportError ''no filenames'')
         | Undefined \<Rightarrow> Inl (TransportError ''no filenames''))\<rparr>"

definition demo_cleanup ::
  "storage_items \<times> MessageAttributesType list \<Rightarrow>
     (error + unit) \<times> storage_items \<times> MessageAttributesType list" where
  "demo_cleanup = (\<lambda>(st, ms).
     case existingOnboardingStoryMessageIds st of
       None \<Rightarrow> (Inr (), st, ms)
     | Some ids \<Rightarrow>
         (Inr (), st\<lparr>existingOnboardingStoryMessageIds := None\<rparr>,
          filter (\<lambda>m. id_msg m \<notin> set ids) ms))"

definition demo_env :: env where
  "demo_env =
     \<lparr>server = Some demo_server,
      getLocale = ''en'',
      findAndDeleteOnboardingStoryIfExists = demo_cleanup,
      processNewAttachment = (\<lambda>a. Inr (a\<lparr>path := Some ''attachments.noindex''\<rparr>)),
      getOrCreateSignalConversation = Inr \<lparr>id_conv = ''signal'', uuid_conv = Some ''u0''\<rparr>,
      saveNewMessageBatcher_add = (\<lambda>m. Inr ()),
      dateNow = (\<lambda>k. 1000),
      uuidGenerate = (\<lambda>k. if k = 0 then ''id-0'' else ''id-1''),
      incrementMessageCounter = Suc\<rparr>"

text \<open>The same, with a clock that advances by a millisecond between two readings.\<close>

definition ticking_env :: env where
  "ticking_env = demo_env\<lparr>dateNow := (\<lambda>k. 1000 + int k)\<rparr>"

text \<open>The same, before \<open>window.textsecure.server\<close> is set.\<close>

definition serverless_env :: env where
  "serverless_env = demo_env\<lparr>server := None\<rparr>"

text \<open>A device that has neither seen nor downloaded the story.\<close>

definition fresh_world :: world where
  "fresh_world =
     \<lparr>storage = \<lparr>hasViewedOnboardingStory = Some False,
                  existingOnboardingStoryMessageIds = None\<rparr>,
      messages = [], trace = [], nowCalls = 0, uuidCalls = 0, counterCalls = 0\<rparr>"

text \<open>A device that has downloaded the story (two ids), before and after it was viewed.\<close>

definition downloaded_world :: world where
  "downloaded_world =
     fresh_world\<lparr>storage := \<lparr>hasViewedOnboardingStory = Some False,
                  existingOnboardingStoryMessageIds = Some [''id-0'', ''id-1'']\<rparr>\<rparr>"

definition viewed_world :: world where
  "viewed_world =
     fresh_world\<lparr>storage := \<lparr>hasViewedOnboardingStory = Some True,
                  existingOnboardingStoryMessageIds = Some [''id-0'', ''id-1'']\<rparr>\<rparr>"

text \<open>A device set to German, with a manifest that has the French story only.\<close>

definition french_env :: env where
  "french_env =
     demo_env\<lparr>server := Some (demo_server\<lparr>getOnboardingStoryManifest :=
       Inr \<lparr>version = ''v1'', languages = [''fr'' \<mapsto> [''1.jpg'']]\<rparr>\<rparr>),
       getLocale := ''de''\<rparr>"

text \<open>
  Two devices whose locale is a property name of \<open>Object.prototype\<close>: one with the
  English manifest, one with the French manifest.
\<close>

definition constructor_env :: env where
  "constructor_env = demo_env\<lparr>getLocale := ''constructor''\<rparr>"


section \<open>Properties\<close>

subsection \<open>Frames and results of the parts\<close>

lemma emit_simps [simp]:
  "trace (emit e w) = trace w @ [e]"
  "storage (emit e w) = storage w"
  "messages (emit e w) = messages w"
  "nowCalls (emit e w) = nowCalls w"
  "uuidCalls (emit e w) = uuidCalls w"
  "counterCalls (emit e w) = counterCalls w"
  by (simp_all add: emit_def)

lemma emits_simps [simp]:
  "trace (emits es w) = trace w @ es"
  "storage (emits es w) = storage w"
  "messages (emits es w) = messages w"
  "nowCalls (emits es w) = nowCalls w"
  "uuidCalls (emits es w) = uuidCalls w"
  "counterCalls (emits es w) = counterCalls w"
  by (simp_all add: emits_def)

lemma promise_all_map_Inr [simp]: "promise_all (map Inr xs) = Inr xs"
  by (induction xs) simp_all

lemma promise_all_Inr: "promise_all rs = Inr xs \<Longrightarrow> rs = map Inr xs"
proof (induction rs arbitrary: xs)
  case Nil
  then show ?case by simp
next
  case (Cons r rs)
  then show ?case by (cases r) (auto split: sum.splits)
qed

lemma promise_all_Inl: "promise_all rs = Inl e \<Longrightarrow> Inl e \<in> set rs"
proof (induction rs)
  case Nil
  then show ?case by simp
next
  case (Cons r rs)
  then show ?case by (cases r) (auto split: sum.splits)
qed

lemma promise_all_rejects: "Inl e \<in> set rs \<Longrightarrow> \<exists>e'. promise_all rs = Inl e'"
proof (induction rs)
  case Nil
  then show ?case by simp
next
  case (Cons r rs)
  then show ?case by (cases r) (auto split: sum.splits)
qed

lemma storyMessages_length [simp]:
  "length (fst (storyMessages env c atts i w)) = length atts"
  by (induction atts arbitrary: i w) (simp_all add: split_beta Let_def)

lemma storyMessages_world:
  "snd (storyMessages env c atts i w) =
     w\<lparr>nowCalls := nowCalls w + length atts, uuidCalls := uuidCalls w + length atts,
       counterCalls := counterCalls w + length atts\<rparr>"
  by (induction atts arbitrary: i w) (simp_all add: split_beta Let_def newStoryMessage_def)

lemma storyMessages_nth:
  "k < length atts \<Longrightarrow>
   fst (storyMessages env c atts i w) ! k =
     fst (newStoryMessage env c
       (w\<lparr>nowCalls := nowCalls w + k, uuidCalls := uuidCalls w + k,
          counterCalls := counterCalls w + k\<rparr>) (atts ! k) (i + k))"
proof (induction atts arbitrary: i w k)
  case Nil
  then show ?case by simp
next
  case (Cons a atts)
  show ?case
  proof (cases k)
    case 0
    then show ?thesis by (simp add: split_beta Let_def newStoryMessage_def)
  next
    case (Suc j)
    with Cons.prems have "j < length atts" by simp
    from Cons.IH [OF this] Suc show ?thesis
      by (simp add: split_beta Let_def newStoryMessage_def)
  qed
qed


lemma storyMessages_cong:
  "nowCalls w' = nowCalls w \<Longrightarrow> uuidCalls w' = uuidCalls w \<Longrightarrow>
   counterCalls w' = counterCalls w \<Longrightarrow>
   fst (storyMessages env c atts i w') = fst (storyMessages env c atts i w)"
proof (induction atts arbitrary: i w w')
  case Nil
  then show ?case by simp
next
  case (Cons a atts)
  have "fst (storyMessages env c atts (i + 1) (snd (newStoryMessage env c w' a i))) =
        fst (storyMessages env c atts (i + 1) (snd (newStoryMessage env c w a i)))"
    by (rule Cons.IH) (simp_all add: newStoryMessage_def Let_def Cons.prems)
  then show ?case
    by (simp add: split_beta Let_def) (simp add: newStoryMessage_def Let_def Cons.prems)
qed

lemma storyMessages_frame [simp]:
  "trace (snd (storyMessages env c atts i w)) = trace w"
  "storage (snd (storyMessages env c atts i w)) = storage w"
  "messages (snd (storyMessages env c atts i w)) = messages w"
  by (simp_all add: storyMessages_world)

lemma savesOf_simps [simp]:
  "savesOf [] = []"
  "savesOf (e # es) = savedMessage e @ savesOf es"
  "savesOf (es @ fs) = savesOf es @ savesOf fs"
  by (simp_all add: savesOf_def)

lemma savesOf_saves [simp]: "savesOf (map SaveNewMessage ms) = ms"
  by (induction ms) simp_all

lemma savesOf_triggers [simp]: "savesOf (map (\<lambda>m. TriggerChange (f m)) ms) = []"
  by (induction ms) simp_all

lemma savesOf_ingestions [simp]: "savesOf (map (ProcessNewAttachment \<circ> g) bs) = []"
  by (induction bs) simp_all

lemma putsOf_simps [simp]:
  "putsOf [] = []"
  "putsOf (e # es) = storagePut e @ putsOf es"
  "putsOf (es @ fs) = putsOf es @ putsOf fs"
  by (simp_all add: putsOf_def)

lemma putsOf_saves [simp]: "putsOf (map SaveNewMessage ms) = []"
  by (induction ms) simp_all

lemma putsOf_triggers [simp]: "putsOf (map (\<lambda>m. TriggerChange (f m)) ms) = []"
  by (induction ms) simp_all

lemma putsOf_ingestions [simp]: "putsOf (map (ProcessNewAttachment \<circ> g) bs) = []"
  by (induction bs) simp_all

lemma resolved_all:
  assumes "promise_all (map f xs) = Inr us"
  shows "\<forall>x\<in>set xs. \<not> isl (f x)"
proof -
  from promise_all_Inr [OF assms] have "map f xs = map Inr us" .
  then have "\<forall>x\<in>set xs. f x \<in> set (map Inr us)"
    by (metis image_eqI list.set_map)
  then show ?thesis by auto
qed

lemma saveAndCommit_rejected:
  assumes "promise_all (map (saveNewMessageBatcher_add env) ms) = Inl e"
  shows "fst (saveAndCommit env ms w) = Inl e"
    and "trace (snd (saveAndCommit env ms w)) = trace w @ map SaveNewMessage ms"
    and "storage (snd (saveAndCommit env ms w)) = storage w"
    and "messages (snd (saveAndCommit env ms w)) =
           messages w @ filter (\<lambda>m. \<not> isl (saveNewMessageBatcher_add env m)) ms"
  using assms by (simp_all add: saveAndCommit_def Let_def)

lemma saveAndCommit_resolved:
  assumes "promise_all (map (saveNewMessageBatcher_add env) ms) = Inr us"
  shows "fst (saveAndCommit env ms w) = Inr ()"
    and "trace (snd (saveAndCommit env ms w)) =
           trace w @ map SaveNewMessage ms @ map (\<lambda>m. TriggerChange (id_msg m)) ms @
           [StoragePut ''existingOnboardingStoryMessageIds'' (map id_msg ms),
            LogInfo ''downloadOnboardingStory: done'']"
    and "storage (snd (saveAndCommit env ms w)) =
           (storage w)\<lparr>existingOnboardingStoryMessageIds := Some (map id_msg ms)\<rparr>"
    and "messages (snd (saveAndCommit env ms w)) = messages w @ ms"
  using assms resolved_all [OF assms] by (simp_all add: saveAndCommit_def Let_def)

lemma runCleanup_trace [simp]:
  "trace (snd (runCleanup env w)) = trace w @ [FindAndDeleteOnboardingStoryIfExists]"
  by (simp add: runCleanup_def split: prod.splits)

lemma newEvents_eq: "trace (snd r) = trace w @ es \<Longrightarrow> newEvents w r = es"
  by (simp add: newEvents_def)

lemma newMessages_eq: "messages (snd r) = messages w @ ms \<Longrightarrow> newMessages w r = ms"
  by (simp add: newMessages_def)

lemma continue_reaches_fetch:
  assumes "server env = Some srv"
    and "hasViewedOnboardingStory (storage w) \<noteq> Some True"
    and "existingOnboardingStoryMessageIds (storage w) = None"
  shows "continueDownloadingOnboardingStory env w =
           fetchAndStore env srv
             (emits [StorageGet ''hasViewedOnboardingStory'',
                     StorageGet ''existingOnboardingStoryMessageIds''] w)"
  using assms
  by (simp add: continueDownloadingOnboardingStory_def strictAssert_def truthy_bool_def
      truthy_array_def Let_def emit_def emits_def)

lemma fetch_manifest_rejected:
  assumes "getOnboardingStoryManifest srv = Inl e"
  shows "fetchAndStore env srv w = (Inl e, emit GetOnboardingStoryManifest w)"
  using assms by (simp add: fetchAndStore_def Let_def)

lemma fetch_download_rejected:
  assumes "getOnboardingStoryManifest srv = Inr m"
    and "downloadOnboardingStories srv (version m) (imageFilenames (getLocale env) m) = Inl e"
  shows "fetchAndStore env srv w =
           (Inl e, emits [GetOnboardingStoryManifest,
                          LogInfo ''downloadOnboardingStory: got manifest version:'',
                          DownloadOnboardingStories (version m)
                            (imageFilenames (getLocale env) m)] w)"
  using assms by (simp add: fetchAndStore_def Let_def emit_def emits_def)

lemma fetch_downloaded:
  assumes "getOnboardingStoryManifest srv = Inr m"
    and "downloadOnboardingStories srv (version m) (imageFilenames (getLocale env) m) = Inr bufs"
  shows "fetchAndStore env srv w =
           ingestAndStore env bufs
             (emits [GetOnboardingStoryManifest,
                     LogInfo ''downloadOnboardingStory: got manifest version:'',
                     DownloadOnboardingStories (version m)
                       (imageFilenames (getLocale env) m)] w)"
  using assms by (simp add: fetchAndStore_def Let_def emit_def emits_def)

lemma ingest_rejected:
  assumes "promise_all (map (processNewAttachment env \<circ> newAttachment) bufs) = Inl e"
  shows "ingestAndStore env bufs w =
           (Inl e, emits (LogInfo ''downloadOnboardingStory: downloaded stories:'' #
                          map (ProcessNewAttachment \<circ> newAttachment) bufs) w)"
  using assms by (simp add: ingestAndStore_def Let_def emit_def emits_def)

lemma conversation_rejected:
  assumes "promise_all (map (processNewAttachment env \<circ> newAttachment) bufs) = Inr atts"
    and "getOrCreateSignalConversation env = Inl e"
  shows "ingestAndStore env bufs w =
           (Inl e, emits (LogInfo ''downloadOnboardingStory: downloaded stories:'' #
                          map (ProcessNewAttachment \<circ> newAttachment) bufs @
                          [LogInfo ''downloadOnboardingStory: getting signal conversation'',
                           GetOrCreateSignalConversation]) w)"
  using assms by (simp add: ingestAndStore_def Let_def emit_def emits_def)

lemma ingest_ok:
  assumes "promise_all (map (processNewAttachment env \<circ> newAttachment) bufs) = Inr atts"
    and "getOrCreateSignalConversation env = Inr c"
  shows "ingestAndStore env bufs w =
           saveAndCommit env (fst (storyMessages env c atts 0 w))
             (snd (storyMessages env c atts 0
               (emits (LogInfo ''downloadOnboardingStory: downloaded stories:'' #
                       map (ProcessNewAttachment \<circ> newAttachment) bufs @
                       [LogInfo ''downloadOnboardingStory: getting signal conversation'',
                        GetOrCreateSignalConversation]) w)))"
proof -
  let ?w4 = "emits (LogInfo ''downloadOnboardingStory: downloaded stories:'' #
                       map (ProcessNewAttachment \<circ> newAttachment) bufs @
                       [LogInfo ''downloadOnboardingStory: getting signal conversation'',
                        GetOrCreateSignalConversation]) w"
  have same: "fst (storyMessages env c atts 0 ?w4) = fst (storyMessages env c atts 0 w)"
    by (rule storyMessages_cong) simp_all
  have "ingestAndStore env bufs w =
          saveAndCommit env (fst (storyMessages env c atts 0 ?w4))
            (snd (storyMessages env c atts 0 ?w4))"
    using assms by (simp add: ingestAndStore_def Let_def split_beta emit_def emits_def)
  with same show ?thesis by simp
qed

subsection \<open>The guards of the continuation\<close>

text \<open>
  C7. When \<open>window.textsecure.server\<close> is not initialized, the continuation ends with the
  assertion's error and the world it started in: it has read no storage key, run no
  cleanup, fetched no manifest and made no message (the trace has no new call). The
  error is a result of the continuation, which its caller receives.
\<close>

theorem assertion_stops_continuation:
  "server env = None \<Longrightarrow>
   continueDownloadingOnboardingStory env w =
     (Inl (AssertionError ''server not initialized''), w)"
  by (simp add: continueDownloadingOnboardingStory_def strictAssert_def)

theorem assertion_stops_continuation_witness:
  "server serverless_env = None \<and>
   continueDownloadingOnboardingStory serverless_env viewed_world =
     (Inl (AssertionError ''server not initialized''), viewed_world)"
  using assertion_stops_continuation [of serverless_env viewed_world]
  by (simp add: serverless_env_def)

text \<open>
  C2, as stated, fails for the continuation where the server is not initialized: the
  flag reads true in \<open>viewed_world\<close>, and the continuation ends at its assertion
  without a call of the cleanup.
\<close>

theorem viewed_cleanup_counterexample:
  "hasViewedOnboardingStory (storage viewed_world) = Some True \<and>
   fst (continueDownloadingOnboardingStory serverless_env viewed_world) =
     Inl (AssertionError ''server not initialized'') \<and>
   count_list (newEvents viewed_world
       (continueDownloadingOnboardingStory serverless_env viewed_world))
     FindAndDeleteOnboardingStoryIfExists = 0"
  by (simp add: continueDownloadingOnboardingStory_def strictAssert_def serverless_env_def
      viewed_world_def fresh_world_def newEvents_def)

text \<open>
  C2, amended. In every state in which \<open>hasViewedOnboardingStory\<close> reads true, the entry
  point, and the continuation when the server is initialized, read that one key, call
  the cleanup exactly once and end with the cleanup's result: the calls of the run are
  these two, so there is no sync trigger, no listener, no manifest fetch and no download.
\<close>

theorem viewed_runs_cleanup_only:
  assumes "hasViewedOnboardingStory (storage w) = Some True"
  shows "downloadOnboardingStory env w =
           runCleanup env (emit (StorageGet ''hasViewedOnboardingStory'') w) \<and>
         newEvents w (downloadOnboardingStory env w) =
           [StorageGet ''hasViewedOnboardingStory'', FindAndDeleteOnboardingStoryIfExists] \<and>
         (server env \<noteq> None \<longrightarrow>
            continueDownloadingOnboardingStory env w =
              runCleanup env (emit (StorageGet ''hasViewedOnboardingStory'') w) \<and>
            newEvents w (continueDownloadingOnboardingStory env w) =
              [StorageGet ''hasViewedOnboardingStory'', FindAndDeleteOnboardingStoryIfExists])"
proof -
  have entry: "downloadOnboardingStory env w =
      runCleanup env (emit (StorageGet ''hasViewedOnboardingStory'') w)"
    using assms by (simp add: downloadOnboardingStory_def truthy_bool_def Let_def)
  have continuation: "continueDownloadingOnboardingStory env w =
      runCleanup env (emit (StorageGet ''hasViewedOnboardingStory'') w)"
    if "server env \<noteq> None"
    using assms that
    by (auto simp add: continueDownloadingOnboardingStory_def strictAssert_def
        truthy_bool_def Let_def)
  show ?thesis
    using entry continuation by (simp add: newEvents_eq)
qed

theorem viewed_runs_cleanup_only_witness:
  "hasViewedOnboardingStory (storage viewed_world) = Some True \<and>
   server demo_env \<noteq> None \<and>
   newEvents viewed_world (downloadOnboardingStory demo_env viewed_world) =
     [StorageGet ''hasViewedOnboardingStory'', FindAndDeleteOnboardingStoryIfExists] \<and>
   newEvents viewed_world (continueDownloadingOnboardingStory demo_env viewed_world) =
     [StorageGet ''hasViewedOnboardingStory'', FindAndDeleteOnboardingStoryIfExists]"
proof -
  have viewed: "hasViewedOnboardingStory (storage viewed_world) = Some True"
    by (simp add: viewed_world_def)
  have initialized: "server demo_env \<noteq> None"
    by (simp add: demo_env_def)
  from viewed_runs_cleanup_only [OF viewed, of demo_env] viewed initialized
  show ?thesis by blast
qed

text \<open>
  C1, as stated, fails where the story has been viewed: the id list is present in
  \<open>viewed_world\<close>, and the continuation never reads it. It calls the cleanup, after
  which the id list is gone and no message of the story is left.
\<close>

theorem present_ids_counterexample:
  "existingOnboardingStoryMessageIds (storage viewed_world) = Some [''id-0'', ''id-1''] \<and>
   newEvents viewed_world (continueDownloadingOnboardingStory demo_env viewed_world) =
     [StorageGet ''hasViewedOnboardingStory'', FindAndDeleteOnboardingStoryIfExists] \<and>
   existingOnboardingStoryMessageIds
     (storage (snd (continueDownloadingOnboardingStory demo_env viewed_world))) = None"
  by (simp add: continueDownloadingOnboardingStory_def strictAssert_def truthy_bool_def
      runCleanup_def demo_cleanup_def demo_env_def viewed_world_def fresh_world_def
      newEvents_def emit_def Let_def)

text \<open>
  C1, amended. In every state in which \<open>existingOnboardingStoryMessageIds\<close> is present,
  the continuation hands no message to the batcher and puts no storage key. When
  moreover the server is initialized and \<open>hasViewedOnboardingStory\<close> does not read true,
  it returns after the presence check: its calls are the two reads and the log line,
  and the storage and the message store are the ones it started with.
\<close>

theorem present_ids_no_new_story:
  assumes "existingOnboardingStoryMessageIds (storage w) \<noteq> None"
  shows "savesOf (newEvents w (continueDownloadingOnboardingStory env w)) = [] \<and>
         putsOf (newEvents w (continueDownloadingOnboardingStory env w)) = [] \<and>
         (server env \<noteq> None \<longrightarrow> hasViewedOnboardingStory (storage w) \<noteq> Some True \<longrightarrow>
            fst (continueDownloadingOnboardingStory env w) = Inr () \<and>
            storage (snd (continueDownloadingOnboardingStory env w)) = storage w \<and>
            messages (snd (continueDownloadingOnboardingStory env w)) = messages w \<and>
            newEvents w (continueDownloadingOnboardingStory env w) =
              [StorageGet ''hasViewedOnboardingStory'',
               StorageGet ''existingOnboardingStoryMessageIds'',
               LogInfo ''downloadOnboardingStory: has existingOnboardingStoryMessageIds''])"
proof (cases "server env")
  case None
  then show ?thesis
    by (simp add: continueDownloadingOnboardingStory_def strictAssert_def newEvents_def)
next
  case (Some srv)
  show ?thesis
  proof (cases "hasViewedOnboardingStory (storage w) = Some True")
    case True
    with Some have "continueDownloadingOnboardingStory env w =
        runCleanup env (emit (StorageGet ''hasViewedOnboardingStory'') w)"
      by (simp add: continueDownloadingOnboardingStory_def strictAssert_def
          truthy_bool_def Let_def)
    with True show ?thesis by (simp add: newEvents_eq)
  next
    case False
    with Some assms have "continueDownloadingOnboardingStory env w =
        (Inr (), emits [StorageGet ''hasViewedOnboardingStory'',
           StorageGet ''existingOnboardingStoryMessageIds'',
           LogInfo ''downloadOnboardingStory: has existingOnboardingStoryMessageIds''] w)"
      by (simp add: continueDownloadingOnboardingStory_def strictAssert_def truthy_bool_def
          truthy_array_def Let_def emit_def emits_def)
    then show ?thesis by (simp add: newEvents_eq)
  qed
qed

theorem present_ids_no_new_story_witness:
  "existingOnboardingStoryMessageIds (storage downloaded_world) \<noteq> None \<and>
   server demo_env \<noteq> None \<and>
   hasViewedOnboardingStory (storage downloaded_world) \<noteq> Some True \<and>
   fst (continueDownloadingOnboardingStory demo_env downloaded_world) = Inr () \<and>
   storage (snd (continueDownloadingOnboardingStory demo_env downloaded_world)) =
     storage downloaded_world \<and>
   messages (snd (continueDownloadingOnboardingStory demo_env downloaded_world)) =
     messages downloaded_world \<and>
   savesOf (newEvents downloaded_world
     (continueDownloadingOnboardingStory demo_env downloaded_world)) = [] \<and>
   putsOf (newEvents downloaded_world
     (continueDownloadingOnboardingStory demo_env downloaded_world)) = []"
proof -
  have present: "existingOnboardingStoryMessageIds (storage downloaded_world) \<noteq> None"
    by (simp add: downloaded_world_def)
  have initialized: "server demo_env \<noteq> None"
    by (simp add: demo_env_def)
  have unseen: "hasViewedOnboardingStory (storage downloaded_world) \<noteq> Some True"
    by (simp add: downloaded_world_def)
  from present_ids_no_new_story [OF present, of demo_env] present initialized unseen
  show ?thesis by blast
qed

subsection \<open>The paths of a run\<close>

lemma run_manifest_rejected:
  assumes "server env = Some srv"
    and "hasViewedOnboardingStory (storage w) \<noteq> Some True"
    and "existingOnboardingStoryMessageIds (storage w) = None"
    and "getOnboardingStoryManifest srv = Inl e"
  shows "continueDownloadingOnboardingStory env w =
           (Inl e, emits [StorageGet ''hasViewedOnboardingStory'',
                          StorageGet ''existingOnboardingStoryMessageIds'',
                          GetOnboardingStoryManifest] w)"
  using assms
  by (simp add: continue_reaches_fetch fetch_manifest_rejected emit_def emits_def)

lemma run_download_rejected:
  assumes "server env = Some srv"
    and "hasViewedOnboardingStory (storage w) \<noteq> Some True"
    and "existingOnboardingStoryMessageIds (storage w) = None"
    and "getOnboardingStoryManifest srv = Inr m"
    and "downloadOnboardingStories srv (version m) (imageFilenames (getLocale env) m) = Inl e"
  shows "continueDownloadingOnboardingStory env w =
           (Inl e, emits [StorageGet ''hasViewedOnboardingStory'',
                          StorageGet ''existingOnboardingStoryMessageIds'',
                          GetOnboardingStoryManifest,
                          LogInfo ''downloadOnboardingStory: got manifest version:'',
                          DownloadOnboardingStories (version m)
                            (imageFilenames (getLocale env) m)] w)"
  using assms
  by (simp add: continue_reaches_fetch fetch_download_rejected emit_def emits_def)

lemma run_downloaded:
  assumes "server env = Some srv"
    and "hasViewedOnboardingStory (storage w) \<noteq> Some True"
    and "existingOnboardingStoryMessageIds (storage w) = None"
    and "getOnboardingStoryManifest srv = Inr m"
    and "downloadOnboardingStories srv (version m) (imageFilenames (getLocale env) m) = Inr bufs"
  shows "continueDownloadingOnboardingStory env w =
           ingestAndStore env bufs
             (emits [StorageGet ''hasViewedOnboardingStory'',
                     StorageGet ''existingOnboardingStoryMessageIds'',
                     GetOnboardingStoryManifest,
                     LogInfo ''downloadOnboardingStory: got manifest version:'',
                     DownloadOnboardingStories (version m)
                       (imageFilenames (getLocale env) m)] w)"
  using assms
  by (simp add: continue_reaches_fetch fetch_downloaded emit_def emits_def)

lemma saveAndCommit_saves:
  "\<exists>es. trace (snd (saveAndCommit env ms w)) = trace w @ es \<and> savesOf es = ms"
proof (cases "promise_all (map (saveNewMessageBatcher_add env) ms)")
  case (Inl e)
  from saveAndCommit_rejected(2) [OF this] show ?thesis by simp
next
  case (Inr us)
  from saveAndCommit_resolved(2) [OF this] show ?thesis by simp
qed

lemma ingest_ok_saves:
  assumes "promise_all (map (processNewAttachment env \<circ> newAttachment) bufs) = Inr atts"
    and "getOrCreateSignalConversation env = Inr c"
  shows "\<exists>es. trace (snd (ingestAndStore env bufs w)) = trace w @ es \<and>
           savesOf es = fst (storyMessages env c atts 0 w)"
proof -
  let ?pre = "LogInfo ''downloadOnboardingStory: downloaded stories:'' #
         map (ProcessNewAttachment \<circ> newAttachment) bufs @
         [LogInfo ''downloadOnboardingStory: getting signal conversation'',
          GetOrCreateSignalConversation]"
  let ?ms = "fst (storyMessages env c atts 0 w)"
  let ?w5 = "snd (storyMessages env c atts 0 (emits ?pre w))"
  from saveAndCommit_saves [of env ?ms ?w5] obtain es
    where tr: "trace (snd (saveAndCommit env ?ms ?w5)) = trace ?w5 @ es"
      and sv: "savesOf es = ?ms"
    by blast
  from tr have "trace (snd (ingestAndStore env bufs w)) = trace w @ ?pre @ es"
    by (simp add: ingest_ok [OF assms])
  moreover from sv have "savesOf (?pre @ es) = ?ms" by simp
  ultimately show ?thesis by blast
qed

lemma ingest_saves:
  "\<exists>es. trace (snd (ingestAndStore env bufs w)) = trace w @ es \<and>
     (savesOf es = [] \<or> (\<exists>c atts. savesOf es = fst (storyMessages env c atts 0 w)))"
proof (cases "promise_all (map (processNewAttachment env \<circ> newAttachment) bufs)")
  case (Inl e)
  then show ?thesis by (simp add: ingest_rejected)
next
  case atts: (Inr atts)
  show ?thesis
  proof (cases "getOrCreateSignalConversation env")
    case (Inl e)
    with atts show ?thesis by (simp add: conversation_rejected)
  next
    case (Inr c)
    from ingest_ok_saves [OF atts Inr, of w] show ?thesis by blast
  qed
qed

lemma run_saves:
  "savesOf (newEvents w (continueDownloadingOnboardingStory env w)) = [] \<or>
   (\<exists>c atts. savesOf (newEvents w (continueDownloadingOnboardingStory env w)) =
      fst (storyMessages env c atts 0 w))"
proof (cases "server env")
  case None
  then show ?thesis
    by (simp add: continueDownloadingOnboardingStory_def strictAssert_def newEvents_def)
next
  case (Some srv)
  show ?thesis
  proof (cases "hasViewedOnboardingStory (storage w) = Some True")
    case True
    with Some have "continueDownloadingOnboardingStory env w =
        runCleanup env (emit (StorageGet ''hasViewedOnboardingStory'') w)"
      by (simp add: continueDownloadingOnboardingStory_def strictAssert_def
          truthy_bool_def Let_def)
    then show ?thesis by (simp add: newEvents_eq)
  next
    case unseen: False
    show ?thesis
    proof (cases "existingOnboardingStoryMessageIds (storage w)")
      case (Some ids)
      then have "existingOnboardingStoryMessageIds (storage w) \<noteq> None" by simp
      with \<open>server env = Some srv\<close> unseen
      have "continueDownloadingOnboardingStory env w =
        (Inr (), emits [StorageGet ''hasViewedOnboardingStory'',
           StorageGet ''existingOnboardingStoryMessageIds'',
           LogInfo ''downloadOnboardingStory: has existingOnboardingStoryMessageIds''] w)"
        by (simp add: continueDownloadingOnboardingStory_def strictAssert_def truthy_bool_def
          truthy_array_def Let_def emit_def emits_def)
      then show ?thesis by (simp add: newEvents_eq)
    next
      case None
      note reach = \<open>server env = Some srv\<close> unseen None
      show ?thesis
      proof (cases "getOnboardingStoryManifest srv")
        case (Inl e)
        from run_manifest_rejected [OF reach Inl] show ?thesis
          by (simp add: newEvents_eq)
      next
        case m: (Inr m)
        show ?thesis
        proof (cases "downloadOnboardingStories srv (version m)
                        (imageFilenames (getLocale env) m)")
          case (Inl e)
          from run_download_rejected [OF reach m Inl] show ?thesis
            by (simp add: newEvents_eq)
        next
          case (Inr bufs)
          let ?w3 = "emits [StorageGet ''hasViewedOnboardingStory'',
                     StorageGet ''existingOnboardingStoryMessageIds'',
                     GetOnboardingStoryManifest,
                     LogInfo ''downloadOnboardingStory: got manifest version:'',
                     DownloadOnboardingStories (version m)
                       (imageFilenames (getLocale env) m)] w"
          have same: "fst (storyMessages env c atts 0 ?w3) = fst (storyMessages env c atts 0 w)"
            for c atts
            by (rule storyMessages_cong) simp_all
          from ingest_saves [of env bufs ?w3] obtain es
            where tr: "trace (snd (ingestAndStore env bufs ?w3)) = trace ?w3 @ es"
              and sv: "savesOf es = [] \<or>
                (\<exists>c atts. savesOf es = fst (storyMessages env c atts 0 ?w3))"
            by blast
          from tr have "newEvents w (continueDownloadingOnboardingStory env w) =
              [StorageGet ''hasViewedOnboardingStory'',
                     StorageGet ''existingOnboardingStoryMessageIds'',
                     GetOnboardingStoryManifest,
                     LogInfo ''downloadOnboardingStory: got manifest version:'',
                     DownloadOnboardingStories (version m)
                       (imageFilenames (getLocale env) m)] @ es"
            by (simp add: run_downloaded [OF reach m Inr] newEvents_eq)
          with sv same show ?thesis by simp
        qed
      qed
    qed
  qed
qed

lemma storyMessages_member:
  assumes "x \<in> set (fst (storyMessages env c atts i w))"
  shows "\<exists>w' a k. x = fst (newStoryMessage env c w' a k) \<and> a \<in> set atts"
  using assms
proof (induction atts arbitrary: i w)
  case Nil
  then show ?case by simp
next
  case (Cons a atts)
  then show ?case
    by (fastforce simp add: split_beta Let_def)
qed

lemma ingest_extends:
  "\<exists>es. trace (snd (ingestAndStore env bufs w)) = trace w @ es"
  using ingest_saves [of env bufs w] by blast

subsection \<open>The filenames of the locale\<close>

lemma english_not_inherited [simp]: "''en'' \<notin> set objectPrototypeNames"
  by (simp add: objectPrototypeNames_def)

lemma imageFilenames_own:
  "languages m l = Some fs \<Longrightarrow> imageFilenames l m = Filenames fs"
  by (auto simp add: imageFilenames_def hasProperty_def getProperty_def)

lemma imageFilenames_inherited:
  "l \<notin> dom (languages m) \<Longrightarrow> l \<in> set objectPrototypeNames \<Longrightarrow>
   imageFilenames l m = PrototypeMember l"
  by (simp add: imageFilenames_def hasProperty_def getProperty_def domIff)

lemma imageFilenames_english:
  "l \<notin> dom (languages m) \<Longrightarrow> l \<notin> set objectPrototypeNames \<Longrightarrow>
   imageFilenames l m =
     (case languages m ''en'' of Some fs \<Rightarrow> Filenames fs | None \<Rightarrow> Undefined)"
  by (auto simp add: imageFilenames_def hasProperty_def getProperty_def split: option.splits)

lemma download_is_fifth:
  assumes "server env = Some srv"
    and "hasViewedOnboardingStory (storage w) \<noteq> Some True"
    and "existingOnboardingStoryMessageIds (storage w) = None"
    and "getOnboardingStoryManifest srv = Inr m"
  shows "\<exists>rest. newEvents w (continueDownloadingOnboardingStory env w) =
           [StorageGet ''hasViewedOnboardingStory'',
            StorageGet ''existingOnboardingStoryMessageIds'',
            GetOnboardingStoryManifest,
            LogInfo ''downloadOnboardingStory: got manifest version:'',
            DownloadOnboardingStories (version m) (imageFilenames (getLocale env) m)] @ rest"
proof -
  let ?names = "imageFilenames (getLocale env) m"
  let ?calls = "[StorageGet ''hasViewedOnboardingStory'',
            StorageGet ''existingOnboardingStoryMessageIds'',
            GetOnboardingStoryManifest,
            LogInfo ''downloadOnboardingStory: got manifest version:'',
            DownloadOnboardingStories (version m) ?names]"
  show ?thesis
  proof (cases "downloadOnboardingStories srv (version m) ?names")
    case (Inl e)
    from run_download_rejected [OF assms Inl] show ?thesis
      by (simp add: newEvents_eq)
  next
    case (Inr bufs)
    from ingest_extends [of env bufs "emits ?calls w"] obtain es
      where "trace (snd (ingestAndStore env bufs (emits ?calls w))) = trace w @ ?calls @ es"
      by auto
    then have "newEvents w (continueDownloadingOnboardingStory env w) = ?calls @ es"
      by (simp add: run_downloaded [OF assms Inr] newEvents_eq)
    then show ?thesis by blast
  qed
qed

text \<open>
  C3, as stated, fails for a locale that is a property name of \<open>Object.prototype\<close>:
  \<open>constructor\<close> is no key of the manifest's \<open>languages\<close>, whose \<open>en\<close> entry is
  \<open>1.jpg\<close>, \<open>2.jpg\<close>; yet \<open>'constructor' in manifest.languages\<close> holds, and the download
  receives the inherited member instead of the \<open>en\<close> list.
\<close>

theorem locale_fallback_counterexample:
  "getLocale constructor_env = ''constructor'' \<and>
   server constructor_env = Some demo_server \<and>
   getOnboardingStoryManifest demo_server = Inr demo_manifest \<and>
   languages demo_manifest ''constructor'' = None \<and>
   languages demo_manifest ''en'' = Some [''1.jpg'', ''2.jpg''] \<and>
   newEvents fresh_world (continueDownloadingOnboardingStory constructor_env fresh_world) =
     [StorageGet ''hasViewedOnboardingStory'',
      StorageGet ''existingOnboardingStoryMessageIds'',
      GetOnboardingStoryManifest,
      LogInfo ''downloadOnboardingStory: got manifest version:'',
      DownloadOnboardingStories ''v1'' (PrototypeMember ''constructor'')]"
  by (simp add: continueDownloadingOnboardingStory_def fetchAndStore_def strictAssert_def
      truthy_bool_def truthy_array_def imageFilenames_def hasProperty_def getProperty_def
      objectPrototypeNames_def emit_def Let_def newEvents_def constructor_env_def
      demo_env_def demo_server_def demo_manifest_def fresh_world_def)

text \<open>
  C3, amended. In every run that receives a manifest, the filename list handed to the
  download (the fifth call of the run) is \<open>manifest.languages[locale]\<close> when the locale is
  an own key of \<open>manifest.languages\<close>; it is \<open>manifest.languages.en\<close> when the locale is
  neither an own key nor a property name inherited from \<open>Object.prototype\<close>. For the
  languages \<open>en: [a, b]\<close> and \<open>fr: [c, d]\<close> the list of the locale \<open>de\<close> is \<open>[a, b]\<close> and
  that of \<open>fr\<close> is \<open>[c, d]\<close>.
\<close>

theorem locale_fallback:
  assumes "server env = Some srv"
    and "hasViewedOnboardingStory (storage w) \<noteq> Some True"
    and "existingOnboardingStoryMessageIds (storage w) = None"
    and "getOnboardingStoryManifest srv = Inr m"
  shows "(\<forall>fs. languages m (getLocale env) = Some fs \<longrightarrow>
            (\<exists>rest. newEvents w (continueDownloadingOnboardingStory env w) =
               [StorageGet ''hasViewedOnboardingStory'',
                StorageGet ''existingOnboardingStoryMessageIds'',
                GetOnboardingStoryManifest,
                LogInfo ''downloadOnboardingStory: got manifest version:'',
                DownloadOnboardingStories (version m) (Filenames fs)] @ rest)) \<and>
         (getLocale env \<notin> dom (languages m) \<longrightarrow>
          getLocale env \<notin> set objectPrototypeNames \<longrightarrow>
            (\<exists>rest. newEvents w (continueDownloadingOnboardingStory env w) =
               [StorageGet ''hasViewedOnboardingStory'',
                StorageGet ''existingOnboardingStoryMessageIds'',
                GetOnboardingStoryManifest,
                LogInfo ''downloadOnboardingStory: got manifest version:'',
                DownloadOnboardingStories (version m)
                  (case languages m ''en'' of
                     Some fs \<Rightarrow> Filenames fs | None \<Rightarrow> Undefined)] @ rest)) \<and>
         imageFilenames ''de''
           \<lparr>version = v, languages = [''en'' \<mapsto> [a, b], ''fr'' \<mapsto> [c, d]]\<rparr> =
           Filenames [a, b] \<and>
         imageFilenames ''fr''
           \<lparr>version = v, languages = [''en'' \<mapsto> [a, b], ''fr'' \<mapsto> [c, d]]\<rparr> =
           Filenames [c, d]"
proof (intro conjI allI impI)
  fix fs
  assume "languages m (getLocale env) = Some fs"
  then have "imageFilenames (getLocale env) m = Filenames fs"
    by (rule imageFilenames_own)
  with download_is_fifth [OF assms]
  show "\<exists>rest. newEvents w (continueDownloadingOnboardingStory env w) =
               [StorageGet ''hasViewedOnboardingStory'',
                StorageGet ''existingOnboardingStoryMessageIds'',
                GetOnboardingStoryManifest,
                LogInfo ''downloadOnboardingStory: got manifest version:'',
                DownloadOnboardingStories (version m) (Filenames fs)] @ rest"
    by simp
next
  assume "getLocale env \<notin> dom (languages m)" and "getLocale env \<notin> set objectPrototypeNames"
  then have "imageFilenames (getLocale env) m =
      (case languages m ''en'' of Some fs \<Rightarrow> Filenames fs | None \<Rightarrow> Undefined)"
    by (rule imageFilenames_english)
  with download_is_fifth [OF assms]
  show "\<exists>rest. newEvents w (continueDownloadingOnboardingStory env w) =
               [StorageGet ''hasViewedOnboardingStory'',
                StorageGet ''existingOnboardingStoryMessageIds'',
                GetOnboardingStoryManifest,
                LogInfo ''downloadOnboardingStory: got manifest version:'',
                DownloadOnboardingStories (version m)
                  (case languages m ''en'' of
                     Some fs \<Rightarrow> Filenames fs | None \<Rightarrow> Undefined)] @ rest"
    by simp
next
  have "''de'' \<notin> set objectPrototypeNames"
    by (simp add: objectPrototypeNames_def)
  then show "imageFilenames ''de''
      \<lparr>version = v, languages = [''en'' \<mapsto> [a, b], ''fr'' \<mapsto> [c, d]]\<rparr> = Filenames [a, b]"
    by (simp add: imageFilenames_english)
next
  show "imageFilenames ''fr''
      \<lparr>version = v, languages = [''en'' \<mapsto> [a, b], ''fr'' \<mapsto> [c, d]]\<rparr> = Filenames [c, d]"
    by (simp add: imageFilenames_own)
qed

theorem locale_fallback_witness:
  "server demo_env = Some demo_server \<and>
   hasViewedOnboardingStory (storage fresh_world) \<noteq> Some True \<and>
   existingOnboardingStoryMessageIds (storage fresh_world) = None \<and>
   getOnboardingStoryManifest demo_server = Inr demo_manifest \<and>
   languages demo_manifest (getLocale demo_env) = Some [''1.jpg'', ''2.jpg''] \<and>
   (\<exists>rest. newEvents fresh_world (continueDownloadingOnboardingStory demo_env fresh_world) =
      [StorageGet ''hasViewedOnboardingStory'',
       StorageGet ''existingOnboardingStoryMessageIds'',
       GetOnboardingStoryManifest,
       LogInfo ''downloadOnboardingStory: got manifest version:'',
       DownloadOnboardingStories ''v1'' (Filenames [''1.jpg'', ''2.jpg''])] @ rest) \<and>
   server (demo_env\<lparr>getLocale := ''de''\<rparr>) = Some demo_server \<and>
   getLocale (demo_env\<lparr>getLocale := ''de''\<rparr>) \<notin> dom (languages demo_manifest) \<and>
   getLocale (demo_env\<lparr>getLocale := ''de''\<rparr>) \<notin> set objectPrototypeNames \<and>
   (\<exists>rest. newEvents fresh_world
        (continueDownloadingOnboardingStory (demo_env\<lparr>getLocale := ''de''\<rparr>) fresh_world) =
      [StorageGet ''hasViewedOnboardingStory'',
       StorageGet ''existingOnboardingStoryMessageIds'',
       GetOnboardingStoryManifest,
       LogInfo ''downloadOnboardingStory: got manifest version:'',
       DownloadOnboardingStories ''v1'' (Filenames [''1.jpg'', ''2.jpg''])] @ rest)"
proof -
  let ?german = "demo_env\<lparr>getLocale := ''de''\<rparr>"
  have initialized: "server demo_env = Some demo_server" "server ?german = Some demo_server"
    by (simp_all add: demo_env_def)
  have unseen: "hasViewedOnboardingStory (storage fresh_world) \<noteq> Some True"
    by (simp add: fresh_world_def)
  have absent: "existingOnboardingStoryMessageIds (storage fresh_world) = None"
    by (simp add: fresh_world_def)
  have manifest: "getOnboardingStoryManifest demo_server = Inr demo_manifest"
    by (simp add: demo_server_def)
  have v: "version demo_manifest = ''v1''"
    by (simp add: demo_manifest_def)
  have own: "languages demo_manifest (getLocale demo_env) = Some [''1.jpg'', ''2.jpg'']"
    by (simp add: demo_env_def demo_manifest_def)
  have english: "languages demo_manifest ''en'' = Some [''1.jpg'', ''2.jpg'']"
    by (simp add: demo_manifest_def)
  have no_key: "getLocale ?german \<notin> dom (languages demo_manifest)"
    by (simp add: demo_manifest_def)
  have no_member: "getLocale ?german \<notin> set objectPrototypeNames"
    by (simp add: objectPrototypeNames_def)
  from locale_fallback [OF initialized(1) unseen absent manifest] own
  have first: "\<exists>rest. newEvents fresh_world
        (continueDownloadingOnboardingStory demo_env fresh_world) =
      [StorageGet ''hasViewedOnboardingStory'',
       StorageGet ''existingOnboardingStoryMessageIds'',
       GetOnboardingStoryManifest,
       LogInfo ''downloadOnboardingStory: got manifest version:'',
       DownloadOnboardingStories ''v1'' (Filenames [''1.jpg'', ''2.jpg''])] @ rest"
    unfolding v by blast
  from locale_fallback [OF initialized(2) unseen absent manifest] no_key no_member
  have "\<exists>rest. newEvents fresh_world
        (continueDownloadingOnboardingStory ?german fresh_world) =
      [StorageGet ''hasViewedOnboardingStory'',
       StorageGet ''existingOnboardingStoryMessageIds'',
       GetOnboardingStoryManifest,
       LogInfo ''downloadOnboardingStory: got manifest version:'',
       DownloadOnboardingStories (version demo_manifest)
         (case languages demo_manifest ''en'' of
            Some fs \<Rightarrow> Filenames fs | None \<Rightarrow> Undefined)] @ rest"
    by blast
  then have second: "\<exists>rest. newEvents fresh_world
        (continueDownloadingOnboardingStory ?german fresh_world) =
      [StorageGet ''hasViewedOnboardingStory'',
       StorageGet ''existingOnboardingStoryMessageIds'',
       GetOnboardingStoryManifest,
       LogInfo ''downloadOnboardingStory: got manifest version:'',
       DownloadOnboardingStories ''v1'' (Filenames [''1.jpg'', ''2.jpg''])] @ rest"
    by (simp add: v english)
  from initialized unseen absent manifest own first no_key no_member second
  show ?thesis by blast
qed




subsection \<open>The run that stores the story\<close>

lemma storyMessages_emits [simp]:
  "fst (storyMessages env c atts i (emits es w)) = fst (storyMessages env c atts i w)"
  "fst (storyMessages env c atts i (emit e w)) = fst (storyMessages env c atts i w)"
  by (rule storyMessages_cong, simp_all)+

lemma run_ok:
  assumes "server env = Some srv"
    and "hasViewedOnboardingStory (storage w) \<noteq> Some True"
    and "existingOnboardingStoryMessageIds (storage w) = None"
    and "getOnboardingStoryManifest srv = Inr m"
    and "downloadOnboardingStories srv (version m) (imageFilenames (getLocale env) m) = Inr bufs"
    and "promise_all (map (processNewAttachment env \<circ> newAttachment) bufs) = Inr atts"
    and "getOrCreateSignalConversation env = Inr c"
    and "promise_all (map (saveNewMessageBatcher_add env)
           (fst (storyMessages env c atts 0 w))) = Inr us"
  shows "fst (continueDownloadingOnboardingStory env w) = Inr ()"
    and "newEvents w (continueDownloadingOnboardingStory env w) =
           [StorageGet ''hasViewedOnboardingStory'',
            StorageGet ''existingOnboardingStoryMessageIds'',
            GetOnboardingStoryManifest,
            LogInfo ''downloadOnboardingStory: got manifest version:'',
            DownloadOnboardingStories (version m) (imageFilenames (getLocale env) m),
            LogInfo ''downloadOnboardingStory: downloaded stories:''] @
           map (ProcessNewAttachment \<circ> newAttachment) bufs @
           [LogInfo ''downloadOnboardingStory: getting signal conversation'',
            GetOrCreateSignalConversation] @
           map SaveNewMessage (fst (storyMessages env c atts 0 w)) @
           map (\<lambda>m. TriggerChange (id_msg m)) (fst (storyMessages env c atts 0 w)) @
           [StoragePut ''existingOnboardingStoryMessageIds''
              (map id_msg (fst (storyMessages env c atts 0 w))),
            LogInfo ''downloadOnboardingStory: done'']"
    and "storage (snd (continueDownloadingOnboardingStory env w)) =
           (storage w)\<lparr>existingOnboardingStoryMessageIds :=
              Some (map id_msg (fst (storyMessages env c atts 0 w)))\<rparr>"
    and "messages (snd (continueDownloadingOnboardingStory env w)) =
           messages w @ fst (storyMessages env c atts 0 w)"
proof -
  note run = run_downloaded [OF assms(1-5)] ingest_ok [OF assms(6,7)]
  show "fst (continueDownloadingOnboardingStory env w) = Inr ()"
    by (simp add: run saveAndCommit_resolved(1) [OF assms(8)])
  have "trace (snd (continueDownloadingOnboardingStory env w)) = trace w @
           [StorageGet ''hasViewedOnboardingStory'',
            StorageGet ''existingOnboardingStoryMessageIds'',
            GetOnboardingStoryManifest,
            LogInfo ''downloadOnboardingStory: got manifest version:'',
            DownloadOnboardingStories (version m) (imageFilenames (getLocale env) m),
            LogInfo ''downloadOnboardingStory: downloaded stories:''] @
           map (ProcessNewAttachment \<circ> newAttachment) bufs @
           [LogInfo ''downloadOnboardingStory: getting signal conversation'',
            GetOrCreateSignalConversation] @
           map SaveNewMessage (fst (storyMessages env c atts 0 w)) @
           map (\<lambda>m. TriggerChange (id_msg m)) (fst (storyMessages env c atts 0 w)) @
           [StoragePut ''existingOnboardingStoryMessageIds''
              (map id_msg (fst (storyMessages env c atts 0 w))),
            LogInfo ''downloadOnboardingStory: done'']"
    by (simp add: run saveAndCommit_resolved(2) [OF assms(8)])
  then show "newEvents w (continueDownloadingOnboardingStory env w) =
           [StorageGet ''hasViewedOnboardingStory'',
            StorageGet ''existingOnboardingStoryMessageIds'',
            GetOnboardingStoryManifest,
            LogInfo ''downloadOnboardingStory: got manifest version:'',
            DownloadOnboardingStories (version m) (imageFilenames (getLocale env) m),
            LogInfo ''downloadOnboardingStory: downloaded stories:''] @
           map (ProcessNewAttachment \<circ> newAttachment) bufs @
           [LogInfo ''downloadOnboardingStory: getting signal conversation'',
            GetOrCreateSignalConversation] @
           map SaveNewMessage (fst (storyMessages env c atts 0 w)) @
           map (\<lambda>m. TriggerChange (id_msg m)) (fst (storyMessages env c atts 0 w)) @
           [StoragePut ''existingOnboardingStoryMessageIds''
              (map id_msg (fst (storyMessages env c atts 0 w))),
            LogInfo ''downloadOnboardingStory: done'']"
    by (rule newEvents_eq)
  show "storage (snd (continueDownloadingOnboardingStory env w)) =
           (storage w)\<lparr>existingOnboardingStoryMessageIds :=
              Some (map id_msg (fst (storyMessages env c atts 0 w)))\<rparr>"
    by (simp add: run saveAndCommit_resolved(3) [OF assms(8)])
  show "messages (snd (continueDownloadingOnboardingStory env w)) =
           messages w @ fst (storyMessages env c atts 0 w)"
    by (simp add: run saveAndCommit_resolved(4) [OF assms(8)])
qed

lemma newStoryMessage_fields [simp]:
  "attachments (fst (newStoryMessage env c w a k)) = [a]"
  "canReplyToStory (fst (newStoryMessage env c w a k)) = False"
  "conversationId (fst (newStoryMessage env c w a k)) = id_conv c"
  "id_msg (fst (newStoryMessage env c w a k)) = uuidGenerate env (uuidCalls w)"
  "readStatus (fst (newStoryMessage env c w a k)) = Unread"
  "received_at (fst (newStoryMessage env c w a k)) = incrementMessageCounter env (counterCalls w)"
  "received_at_ms (fst (newStoryMessage env c w a k)) = dateNow env (nowCalls w) + int k"
  "seenStatus (fst (newStoryMessage env c w a k)) = Unseen"
  "sent_at (fst (newStoryMessage env c w a k)) = dateNow env (nowCalls w) + int k"
  "serverTimestamp (fst (newStoryMessage env c w a k)) = dateNow env (nowCalls w) + int k"
  "sourceUuid (fst (newStoryMessage env c w a k)) = uuid_conv c"
  "timestamp (fst (newStoryMessage env c w a k)) = dateNow env (nowCalls w) + int k"
  "type_msg (fst (newStoryMessage env c w a k)) = ''story''"
  by (simp_all add: newStoryMessage_def Let_def)

lemma storyMessages_nth_fields:
  assumes "k < length atts"
  shows "attachments (fst (storyMessages env c atts i w) ! k) = [atts ! k]"
    and "conversationId (fst (storyMessages env c atts i w) ! k) = id_conv c"
    and "sourceUuid (fst (storyMessages env c atts i w) ! k) = uuid_conv c"
    and "timestamp (fst (storyMessages env c atts i w) ! k) =
           dateNow env (nowCalls w + k) + int (i + k)"
  by (simp_all add: storyMessages_nth [OF assms])

lemma processed_nth:
  assumes "promise_all (map (processNewAttachment env \<circ> newAttachment) bufs) = Inr atts"
  shows "length atts = length bufs"
    and "i < length bufs \<Longrightarrow> processNewAttachment env (newAttachment (bufs ! i)) = Inr (atts ! i)"
proof -
  from promise_all_Inr [OF assms]
  have eq: "map (processNewAttachment env \<circ> newAttachment) bufs = map Inr atts" .
  from arg_cong [OF eq, of length] show len: "length atts = length bufs" by simp
  assume "i < length bufs"
  with len eq have "map (processNewAttachment env \<circ> newAttachment) bufs ! i = map Inr atts ! i"
    by simp
  with \<open>i < length bufs\<close> len
  show "processNewAttachment env (newAttachment (bufs ! i)) = Inr (atts ! i)"
    by simp
qed

text \<open>The two runs of the concrete device, for any clock.\<close>

lemmas run_defs =
  continueDownloadingOnboardingStory_def fetchAndStore_def ingestAndStore_def
  saveAndCommit_def strictAssert_def truthy_bool_def truthy_array_def imageFilenames_def
  hasProperty_def getProperty_def objectPrototypeNames_def
  newAttachment_def newStoryMessage_def emit_def emits_def Let_def
  newEvents_def newMessages_def

lemmas demo_defs =
  demo_env_def demo_server_def demo_manifest_def fresh_world_def

lemma clocked_run:
  "fst (continueDownloadingOnboardingStory (demo_env\<lparr>dateNow := clk\<rparr>) fresh_world) = Inr ()"
  "map timestamp (newMessages fresh_world
     (continueDownloadingOnboardingStory (demo_env\<lparr>dateNow := clk\<rparr>) fresh_world)) =
     [clk 0, clk 1 + 1]"
  "map id_msg (newMessages fresh_world
     (continueDownloadingOnboardingStory (demo_env\<lparr>dateNow := clk\<rparr>) fresh_world)) =
     [''id-0'', ''id-1'']"
  "existingOnboardingStoryMessageIds (storage (snd
     (continueDownloadingOnboardingStory (demo_env\<lparr>dateNow := clk\<rparr>) fresh_world))) =
     Some [''id-0'', ''id-1'']"
  "savesOf (newEvents fresh_world
     (continueDownloadingOnboardingStory (demo_env\<lparr>dateNow := clk\<rparr>) fresh_world)) =
   newMessages fresh_world
     (continueDownloadingOnboardingStory (demo_env\<lparr>dateNow := clk\<rparr>) fresh_world)"
  by (simp_all add: run_defs demo_defs)

lemma demo_collaborators:
  "server demo_env = Some demo_server"
  "server ticking_env = Some demo_server"
  "getLocale demo_env = ''en''"
  "getOnboardingStoryManifest demo_server = Inr demo_manifest"
  "version demo_manifest = ''v1''"
  "languages demo_manifest ''en'' = Some [''1.jpg'', ''2.jpg'']"
  "downloadOnboardingStories demo_server ''v1'' (Filenames [''1.jpg'', ''2.jpg'']) =
     Inr [[0xFF, 0xD8, 1], [0xFF, 0xD8, 2]]"
  "downloadOnboardingStories demo_server (version demo_manifest)
     (imageFilenames (getLocale demo_env) demo_manifest) =
     Inr [[0xFF, 0xD8, 1], [0xFF, 0xD8, 2]]"
  "downloadOnboardingStories demo_server (version demo_manifest)
     (imageFilenames (getLocale ticking_env) demo_manifest) =
     Inr [[0xFF, 0xD8, 1], [0xFF, 0xD8, 2]]"
  "processNewAttachment demo_env a = Inr (a\<lparr>path := Some ''attachments.noindex''\<rparr>)"
  "getOrCreateSignalConversation demo_env = Inr \<lparr>id_conv = ''signal'', uuid_conv = Some ''u0''\<rparr>"
  "saveNewMessageBatcher_add demo_env x = Inr ()"
  "dateNow ticking_env = (\<lambda>k. 1000 + int k)"
  by (simp_all add: demo_defs ticking_env_def imageFilenames_def hasProperty_def
      getProperty_def)

lemma fresh_world_state:
  "hasViewedOnboardingStory (storage fresh_world) = Some False"
  "existingOnboardingStoryMessageIds (storage fresh_world) = None"
  "nowCalls fresh_world = 0"
  by (simp_all add: fresh_world_def)

subsection \<open>The story messages\<close>

text \<open>
  C9. In every run, the message of index \<open>i\<close> that the continuation hands to the batcher
  has one value in its four time fields \<open>timestamp\<close>, \<open>sent_at\<close>, \<open>serverTimestamp\<close> and
  \<open>received_at_ms\<close>: the per-index timestamp of line 101, which is (reading number \<open>i\<close> of
  the clock in this run) + \<open>i\<close>.
\<close>

theorem story_time_fields:
  "\<forall>i<length (savesOf (newEvents w (continueDownloadingOnboardingStory env w))).
     timestamp (savesOf (newEvents w (continueDownloadingOnboardingStory env w)) ! i) =
       dateNow env (nowCalls w + i) + int i \<and>
     sent_at (savesOf (newEvents w (continueDownloadingOnboardingStory env w)) ! i) =
       dateNow env (nowCalls w + i) + int i \<and>
     serverTimestamp (savesOf (newEvents w (continueDownloadingOnboardingStory env w)) ! i) =
       dateNow env (nowCalls w + i) + int i \<and>
     received_at_ms (savesOf (newEvents w (continueDownloadingOnboardingStory env w)) ! i) =
       dateNow env (nowCalls w + i) + int i"
proof (intro allI impI)
  fix i
  let ?saves = "savesOf (newEvents w (continueDownloadingOnboardingStory env w))"
  assume i: "i < length ?saves"
  then have "?saves \<noteq> []" by auto
  with run_saves [of w env] obtain c atts
    where saves: "?saves = fst (storyMessages env c atts 0 w)"
    by auto
  with i have "i < length atts" by simp
  then show "timestamp (?saves ! i) = dateNow env (nowCalls w + i) + int i \<and>
     sent_at (?saves ! i) = dateNow env (nowCalls w + i) + int i \<and>
     serverTimestamp (?saves ! i) = dateNow env (nowCalls w + i) + int i \<and>
     received_at_ms (?saves ! i) = dateNow env (nowCalls w + i) + int i"
    unfolding saves by (simp add: storyMessages_nth)
qed

theorem story_time_fields_witness:
  "1 < length (savesOf (newEvents fresh_world
     (continueDownloadingOnboardingStory ticking_env fresh_world))) \<and>
   timestamp (savesOf (newEvents fresh_world
     (continueDownloadingOnboardingStory ticking_env fresh_world)) ! 1) = 1002 \<and>
   sent_at (savesOf (newEvents fresh_world
     (continueDownloadingOnboardingStory ticking_env fresh_world)) ! 1) = 1002 \<and>
   serverTimestamp (savesOf (newEvents fresh_world
     (continueDownloadingOnboardingStory ticking_env fresh_world)) ! 1) = 1002 \<and>
   received_at_ms (savesOf (newEvents fresh_world
     (continueDownloadingOnboardingStory ticking_env fresh_world)) ! 1) = 1002"
proof -
  let ?saves = "savesOf (newEvents fresh_world
     (continueDownloadingOnboardingStory ticking_env fresh_world))"
  have "map id_msg ?saves = [''id-0'', ''id-1'']"
    using clocked_run(3,5) [of "\<lambda>k. 1000 + int k"] by (simp add: ticking_env_def)
  from arg_cong [OF this, of length] have two: "1 < length ?saves"
    by simp
  have clock: "dateNow ticking_env (nowCalls fresh_world + 1) + int 1 = 1002"
    by (simp add: demo_collaborators(13) fresh_world_state)
  from story_time_fields [of fresh_world ticking_env] two
  have "timestamp (?saves ! 1) = dateNow ticking_env (nowCalls fresh_world + 1) + int 1 \<and>
     sent_at (?saves ! 1) = dateNow ticking_env (nowCalls fresh_world + 1) + int 1 \<and>
     serverTimestamp (?saves ! 1) = dateNow ticking_env (nowCalls fresh_world + 1) + int 1 \<and>
     received_at_ms (?saves ! 1) = dateNow ticking_env (nowCalls fresh_world + 1) + int 1"
    by blast
  with two show ?thesis
    unfolding clock by blast
qed

text \<open>
  C10. In every run that reaches the construction of the messages (the buffers are
  downloaded, the ingestion gives \<open>atts\<close> and the conversation is \<open>c\<close>), there is one
  message per buffer; the message of index \<open>i\<close> carries exactly one attachment, the
  processed attachment of the buffer of index \<open>i\<close>, its \<open>conversationId\<close> is the id of the
  signal conversation and its \<open>sourceUuid\<close> is that conversation's uuid.
\<close>

theorem story_attribution:
  assumes "server env = Some srv"
    and "hasViewedOnboardingStory (storage w) \<noteq> Some True"
    and "existingOnboardingStoryMessageIds (storage w) = None"
    and "getOnboardingStoryManifest srv = Inr m"
    and "downloadOnboardingStories srv (version m) (imageFilenames (getLocale env) m) = Inr bufs"
    and "promise_all (map (processNewAttachment env \<circ> newAttachment) bufs) = Inr atts"
    and "getOrCreateSignalConversation env = Inr c"
  shows "length (savesOf (newEvents w (continueDownloadingOnboardingStory env w))) =
           length bufs \<and>
         (\<forall>i<length bufs.
            attachments (savesOf (newEvents w (continueDownloadingOnboardingStory env w)) ! i) =
              [atts ! i] \<and>
            processNewAttachment env (newAttachment (bufs ! i)) = Inr (atts ! i) \<and>
            conversationId (savesOf (newEvents w (continueDownloadingOnboardingStory env w)) ! i) =
              id_conv c \<and>
            sourceUuid (savesOf (newEvents w (continueDownloadingOnboardingStory env w)) ! i) =
              uuid_conv c)"
proof -
  let ?w3 = "emits [StorageGet ''hasViewedOnboardingStory'',
                     StorageGet ''existingOnboardingStoryMessageIds'',
                     GetOnboardingStoryManifest,
                     LogInfo ''downloadOnboardingStory: got manifest version:'',
                     DownloadOnboardingStories (version m)
                       (imageFilenames (getLocale env) m)] w"
  from ingest_ok_saves [OF assms(6,7), of ?w3] obtain es
    where tr: "trace (snd (ingestAndStore env bufs ?w3)) = trace ?w3 @ es"
      and sv: "savesOf es = fst (storyMessages env c atts 0 w)"
    by auto
  from tr have "newEvents w (continueDownloadingOnboardingStory env w) =
      [StorageGet ''hasViewedOnboardingStory'',
       StorageGet ''existingOnboardingStoryMessageIds'',
       GetOnboardingStoryManifest,
       LogInfo ''downloadOnboardingStory: got manifest version:'',
       DownloadOnboardingStories (version m) (imageFilenames (getLocale env) m)] @ es"
    by (simp add: run_downloaded [OF assms(1-5)] newEvents_eq)
  with sv have saves: "savesOf (newEvents w (continueDownloadingOnboardingStory env w)) =
      fst (storyMessages env c atts 0 w)"
    by simp
  note len = processed_nth(1) [OF assms(6)]
  show ?thesis
    unfolding saves using len
    by (simp add: storyMessages_nth_fields processed_nth(2) [OF assms(6)])
qed

theorem story_attribution_witness:
  "server demo_env = Some demo_server \<and>
   hasViewedOnboardingStory (storage fresh_world) \<noteq> Some True \<and>
   existingOnboardingStoryMessageIds (storage fresh_world) = None \<and>
   getOnboardingStoryManifest demo_server = Inr demo_manifest \<and>
   downloadOnboardingStories demo_server (version demo_manifest)
     (imageFilenames (getLocale demo_env) demo_manifest) =
     Inr [[0xFF, 0xD8, 1], [0xFF, 0xD8, 2]] \<and>
   promise_all (map (processNewAttachment demo_env \<circ> newAttachment)
     [[0xFF, 0xD8, 1], [0xFF, 0xD8, 2]]) =
     Inr [\<lparr>contentType = ''image/jpeg'', data = Some [0xFF, 0xD8, 1], size_att = 3,
            path = Some ''attachments.noindex''\<rparr>,
          \<lparr>contentType = ''image/jpeg'', data = Some [0xFF, 0xD8, 2], size_att = 3,
            path = Some ''attachments.noindex''\<rparr>] \<and>
   getOrCreateSignalConversation demo_env =
     Inr \<lparr>id_conv = ''signal'', uuid_conv = Some ''u0''\<rparr> \<and>
   length (savesOf (newEvents fresh_world
     (continueDownloadingOnboardingStory demo_env fresh_world))) = 2 \<and>
   attachments (savesOf (newEvents fresh_world
     (continueDownloadingOnboardingStory demo_env fresh_world)) ! 1) =
     [\<lparr>contentType = ''image/jpeg'', data = Some [0xFF, 0xD8, 2], size_att = 3,
        path = Some ''attachments.noindex''\<rparr>] \<and>
   conversationId (savesOf (newEvents fresh_world
     (continueDownloadingOnboardingStory demo_env fresh_world)) ! 1) = ''signal'' \<and>
   sourceUuid (savesOf (newEvents fresh_world
     (continueDownloadingOnboardingStory demo_env fresh_world)) ! 1) = Some ''u0''"
proof -
  let ?saves = "savesOf (newEvents fresh_world
     (continueDownloadingOnboardingStory demo_env fresh_world))"
  let ?atts = "[\<lparr>contentType = ''image/jpeg'', data = Some [0xFF, 0xD8, 1], size_att = 3,
            path = Some ''attachments.noindex''\<rparr>,
          \<lparr>contentType = ''image/jpeg'', data = Some [0xFF, 0xD8, 2], size_att = 3,
            path = Some ''attachments.noindex''\<rparr>]"
  have unseen: "hasViewedOnboardingStory (storage fresh_world) \<noteq> Some True"
    by (simp add: fresh_world_state)
  have ingested: "promise_all (map (processNewAttachment demo_env \<circ> newAttachment)
     [[0xFF, 0xD8, 1], [0xFF, 0xD8, 2]]) = Inr ?atts"
    by (simp add: demo_collaborators newAttachment_def IMAGE_JPEG_def)
  note hyps = demo_collaborators(1) unseen fresh_world_state(2) demo_collaborators(4)
    demo_collaborators(8) ingested demo_collaborators(11)
  note run = story_attribution [OF hyps]
  from run have len: "length ?saves = 2"
    by simp
  from run have "attachments (?saves ! 1) = [?atts ! 1] \<and>
      conversationId (?saves ! 1) = ''signal'' \<and> sourceUuid (?saves ! 1) = Some ''u0''"
    by simp
  with len hyps show ?thesis
    by simp
qed

text \<open>
  C4, as stated, fails when the clock advances during the construction: the callback
  reads \<open>Date.now()\<close> once for every message. With the readings 1000 and 1001 the
  two timestamps are 1000 and 1002, which are not \<open>base\<close> and \<open>base + 1\<close> for any one
  \<open>base\<close>.
\<close>

theorem story_timestamps_counterexample:
  "map (dateNow ticking_env) [0, 1] = [1000, 1001] \<and>
   map timestamp (newMessages fresh_world
     (continueDownloadingOnboardingStory ticking_env fresh_world)) = [1000, 1002] \<and>
   savesOf (newEvents fresh_world
     (continueDownloadingOnboardingStory ticking_env fresh_world)) =
   newMessages fresh_world
     (continueDownloadingOnboardingStory ticking_env fresh_world)"
  by (simp add: ticking_env_def clocked_run)

text \<open>
  C4, amended. In every run of the continuation that downloads N images and builds the
  messages (the ingestion and the conversation succeed), N messages are handed to the
  batcher; the message of index \<open>i\<close> has the timestamp (reading number \<open>i\<close> of the clock
  in this run) + \<open>i\<close>. When the readings do not decrease, the timestamps are strictly
  increasing (so unique within the batch); when all N readings are one value \<open>base\<close>, they
  are \<open>base\<close>, \<open>base + 1\<close>, ..., \<open>base + N - 1\<close>. When the run completes, these messages are
  the new messages of the store and the list put under
  \<open>existingOnboardingStoryMessageIds\<close> is the list of their ids in the same order.
\<close>

theorem story_timestamps:
  assumes "server env = Some srv"
    and "hasViewedOnboardingStory (storage w) \<noteq> Some True"
    and "existingOnboardingStoryMessageIds (storage w) = None"
    and "getOnboardingStoryManifest srv = Inr m"
    and "downloadOnboardingStories srv (version m) (imageFilenames (getLocale env) m) = Inr bufs"
    and "promise_all (map (processNewAttachment env \<circ> newAttachment) bufs) = Inr atts"
    and "getOrCreateSignalConversation env = Inr c"
  shows "length (savesOf (newEvents w (continueDownloadingOnboardingStory env w))) =
           length bufs \<and>
         (\<forall>i<length bufs.
            timestamp (savesOf (newEvents w (continueDownloadingOnboardingStory env w)) ! i) =
              dateNow env (nowCalls w + i) + int i) \<and>
         ((\<forall>i j. i < j \<longrightarrow> j < length bufs \<longrightarrow>
             dateNow env (nowCalls w + i) \<le> dateNow env (nowCalls w + j)) \<longrightarrow>
          sorted_wrt (<)
            (map timestamp (savesOf (newEvents w (continueDownloadingOnboardingStory env w))))) \<and>
         (\<forall>base. (\<forall>i<length bufs. dateNow env (nowCalls w + i) = base) \<longrightarrow>
            map timestamp (savesOf (newEvents w (continueDownloadingOnboardingStory env w))) =
              map (\<lambda>i. base + int i) [0..<length bufs]) \<and>
         (fst (continueDownloadingOnboardingStory env w) = Inr () \<longrightarrow>
            newMessages w (continueDownloadingOnboardingStory env w) =
              savesOf (newEvents w (continueDownloadingOnboardingStory env w)) \<and>
            existingOnboardingStoryMessageIds
              (storage (snd (continueDownloadingOnboardingStory env w))) =
              Some (map id_msg
                (savesOf (newEvents w (continueDownloadingOnboardingStory env w)))))"
proof -
  let ?r = "continueDownloadingOnboardingStory env w"
  let ?ms = "fst (storyMessages env c atts 0 w)"
  let ?w3 = "emits [StorageGet ''hasViewedOnboardingStory'',
                     StorageGet ''existingOnboardingStoryMessageIds'',
                     GetOnboardingStoryManifest,
                     LogInfo ''downloadOnboardingStory: got manifest version:'',
                     DownloadOnboardingStories (version m)
                       (imageFilenames (getLocale env) m)] w"
  from ingest_ok_saves [OF assms(6,7), of ?w3] obtain es
    where tr: "trace (snd (ingestAndStore env bufs ?w3)) = trace ?w3 @ es"
      and sv: "savesOf es = ?ms"
    by auto
  from tr have "newEvents w ?r =
      [StorageGet ''hasViewedOnboardingStory'',
       StorageGet ''existingOnboardingStoryMessageIds'',
       GetOnboardingStoryManifest,
       LogInfo ''downloadOnboardingStory: got manifest version:'',
       DownloadOnboardingStories (version m) (imageFilenames (getLocale env) m)] @ es"
    by (simp add: run_downloaded [OF assms(1-5)] newEvents_eq)
  with sv have saves: "savesOf (newEvents w ?r) = ?ms"
    by simp
  have len: "length ?ms = length bufs"
    by (simp add: processed_nth(1) [OF assms(6)])
  have ts: "timestamp (?ms ! i) = dateNow env (nowCalls w + i) + int i"
    if "i < length bufs" for i
    using that by (simp add: storyMessages_nth_fields processed_nth(1) [OF assms(6)])
  have increasing: "sorted_wrt (<) (map timestamp ?ms)"
    if mono: "\<forall>i j. i < j \<longrightarrow> j < length bufs \<longrightarrow>
             dateNow env (nowCalls w + i) \<le> dateNow env (nowCalls w + j)"
  proof -
    have "timestamp (?ms ! i) < timestamp (?ms ! j)"
      if "i < j" and "j < length bufs" for i j
    proof -
      from that have "i < length bufs" by simp
      from mono that have "dateNow env (nowCalls w + i) \<le> dateNow env (nowCalls w + j)"
        by blast
      with ts [OF \<open>i < length bufs\<close>] ts [OF \<open>j < length bufs\<close>] \<open>i < j\<close>
      show ?thesis by simp
    qed
    with len show ?thesis
      by (simp add: sorted_wrt_iff_nth_less)
  qed
  have still: "map timestamp ?ms = map (\<lambda>i. base + int i) [0..<length bufs]"
    if "\<forall>i<length bufs. dateNow env (nowCalls w + i) = base" for base
    using that len ts by (intro nth_equalityI) simp_all
  have written: "newMessages w ?r = ?ms \<and>
      existingOnboardingStoryMessageIds (storage (snd ?r)) = Some (map id_msg ?ms)"
    if completes: "fst ?r = Inr ()"
  proof (cases "promise_all (map (saveNewMessageBatcher_add env) ?ms)")
    case (Inl e)
    with completes show ?thesis
      by (simp add: run_downloaded [OF assms(1-5)] ingest_ok [OF assms(6,7)]
          saveAndCommit_rejected(1))
  next
    case (Inr us)
    note ok = run_ok [OF assms Inr]
    from ok(4) have "newMessages w ?r = ?ms"
      by (rule newMessages_eq)
    with ok(3) show ?thesis by simp
  qed
  from len ts increasing still written show ?thesis
    unfolding saves by simp
qed

theorem story_timestamps_witness:
  "server ticking_env = Some demo_server \<and>
   hasViewedOnboardingStory (storage fresh_world) \<noteq> Some True \<and>
   existingOnboardingStoryMessageIds (storage fresh_world) = None \<and>
   getOnboardingStoryManifest demo_server = Inr demo_manifest \<and>
   downloadOnboardingStories demo_server (version demo_manifest)
     (imageFilenames (getLocale ticking_env) demo_manifest) =
     Inr [[0xFF, 0xD8, 1], [0xFF, 0xD8, 2]] \<and>
   promise_all (map (processNewAttachment ticking_env \<circ> newAttachment)
     [[0xFF, 0xD8, 1], [0xFF, 0xD8, 2]]) =
     Inr [\<lparr>contentType = ''image/jpeg'', data = Some [0xFF, 0xD8, 1], size_att = 3,
            path = Some ''attachments.noindex''\<rparr>,
          \<lparr>contentType = ''image/jpeg'', data = Some [0xFF, 0xD8, 2], size_att = 3,
            path = Some ''attachments.noindex''\<rparr>] \<and>
   getOrCreateSignalConversation ticking_env =
     Inr \<lparr>id_conv = ''signal'', uuid_conv = Some ''u0''\<rparr> \<and>
   fst (continueDownloadingOnboardingStory ticking_env fresh_world) = Inr () \<and>
   length (savesOf (newEvents fresh_world
     (continueDownloadingOnboardingStory ticking_env fresh_world))) = 2 \<and>
   timestamp (savesOf (newEvents fresh_world
     (continueDownloadingOnboardingStory ticking_env fresh_world)) ! 0) = 1000 \<and>
   timestamp (savesOf (newEvents fresh_world
     (continueDownloadingOnboardingStory ticking_env fresh_world)) ! 1) = 1002 \<and>
   sorted_wrt (<) (map timestamp (savesOf (newEvents fresh_world
     (continueDownloadingOnboardingStory ticking_env fresh_world)))) \<and>
   existingOnboardingStoryMessageIds
     (storage (snd (continueDownloadingOnboardingStory ticking_env fresh_world))) =
     Some (map id_msg (savesOf (newEvents fresh_world
       (continueDownloadingOnboardingStory ticking_env fresh_world))))"
proof -
  let ?saves = "savesOf (newEvents fresh_world
     (continueDownloadingOnboardingStory ticking_env fresh_world))"
  let ?atts = "[\<lparr>contentType = ''image/jpeg'', data = Some [0xFF, 0xD8, 1], size_att = 3,
            path = Some ''attachments.noindex''\<rparr>,
          \<lparr>contentType = ''image/jpeg'', data = Some [0xFF, 0xD8, 2], size_att = 3,
            path = Some ''attachments.noindex''\<rparr>]"
  have unseen: "hasViewedOnboardingStory (storage fresh_world) \<noteq> Some True"
    by (simp add: fresh_world_state)
  have ingested: "promise_all (map (processNewAttachment ticking_env \<circ> newAttachment)
     [[0xFF, 0xD8, 1], [0xFF, 0xD8, 2]]) = Inr ?atts"
    by (simp add: ticking_env_def demo_env_def newAttachment_def IMAGE_JPEG_def)
  have conversation: "getOrCreateSignalConversation ticking_env =
      Inr \<lparr>id_conv = ''signal'', uuid_conv = Some ''u0''\<rparr>"
    by (simp add: ticking_env_def demo_env_def)
  have completes: "fst (continueDownloadingOnboardingStory ticking_env fresh_world) = Inr ()"
    by (simp add: ticking_env_def clocked_run)
  note hyps = demo_collaborators(2) unseen fresh_world_state(2) demo_collaborators(4)
    demo_collaborators(9) ingested conversation
  note run = story_timestamps [OF hyps]
  from run have len: "length ?saves = 2"
    by simp
  from run have ts: "timestamp (?saves ! i) = 1000 + int i + int i" if "i < 2" for i
    using that by (simp add: demo_collaborators(13) fresh_world_state)
  from run have increasing: "sorted_wrt (<) (map timestamp ?saves)"
    by (simp add: demo_collaborators(13) fresh_world_state)
  from run completes have "existingOnboardingStoryMessageIds
     (storage (snd (continueDownloadingOnboardingStory ticking_env fresh_world))) =
     Some (map id_msg ?saves)"
    by blast
  with len ts [of 0] ts [of 1] increasing hyps completes show ?thesis
    by simp
qed

text \<open>
  C6. From a state with \<open>hasViewedOnboardingStory = false\<close> and no id list, with the
  locale \<open>en\<close> and a manifest of version \<open>v1\<close> whose \<open>en\<close> entry is \<open>1.jpg\<close>, \<open>2.jpg\<close>,
  when the server answers the download with two buffers and the ingestion, the
  conversation and the batcher succeed: the continuation completes, it has requested
  these two files of \<open>v1\<close>, the store has exactly two new messages (the ones handed to
  the batcher), each with \<open>type = story\<close>, \<open>readStatus = Unread\<close>, \<open>seenStatus = Unseen\<close>
  and \<open>canReplyToStory = false\<close>, and the one storage put of the run writes their two
  ids under \<open>existingOnboardingStoryMessageIds\<close>.
\<close>

theorem end_to_end:
  assumes "hasViewedOnboardingStory (storage w) = Some False"
    and "existingOnboardingStoryMessageIds (storage w) = None"
    and "server env = Some srv"
    and "getLocale env = ''en''"
    and "getOnboardingStoryManifest srv = Inr m"
    and "version m = ''v1''"
    and "languages m ''en'' = Some [''1.jpg'', ''2.jpg'']"
    and "downloadOnboardingStories srv ''v1'' (Filenames [''1.jpg'', ''2.jpg'']) = Inr [b1, b2]"
    and "processNewAttachment env (newAttachment b1) = Inr a1"
    and "processNewAttachment env (newAttachment b2) = Inr a2"
    and "getOrCreateSignalConversation env = Inr c"
    and "\<forall>x. saveNewMessageBatcher_add env x = Inr ()"
  shows "fst (continueDownloadingOnboardingStory env w) = Inr () \<and>
         DownloadOnboardingStories ''v1'' (Filenames [''1.jpg'', ''2.jpg'']) \<in>
           set (newEvents w (continueDownloadingOnboardingStory env w)) \<and>
         length (newMessages w (continueDownloadingOnboardingStory env w)) = 2 \<and>
         savesOf (newEvents w (continueDownloadingOnboardingStory env w)) =
           newMessages w (continueDownloadingOnboardingStory env w) \<and>
         (\<forall>x\<in>set (newMessages w (continueDownloadingOnboardingStory env w)).
            type_msg x = ''story'' \<and> readStatus x = Unread \<and> seenStatus x = Unseen \<and>
            canReplyToStory x = False) \<and>
         putsOf (newEvents w (continueDownloadingOnboardingStory env w)) =
           [(''existingOnboardingStoryMessageIds'',
             map id_msg (newMessages w (continueDownloadingOnboardingStory env w)))] \<and>
         existingOnboardingStoryMessageIds
           (storage (snd (continueDownloadingOnboardingStory env w))) =
           Some (map id_msg (newMessages w (continueDownloadingOnboardingStory env w)))"
proof -
  have unseen: "hasViewedOnboardingStory (storage w) \<noteq> Some True"
    using assms(1) by simp
  have names: "imageFilenames (getLocale env) m = Filenames [''1.jpg'', ''2.jpg'']"
    using assms(4,7) by (simp add: imageFilenames_own)
  have bufs: "downloadOnboardingStories srv (version m) (imageFilenames (getLocale env) m) =
      Inr [b1, b2]"
    using assms(6,8) names by simp
  have atts: "promise_all (map (processNewAttachment env \<circ> newAttachment) [b1, b2]) =
      Inr [a1, a2]"
    using assms(9,10) by simp
  let ?ms = "fst (storyMessages env c [a1, a2] 0 w)"
  have "map (saveNewMessageBatcher_add env) ?ms = map Inr (map (\<lambda>x. ()) ?ms)"
    using assms(12) by simp
  then have us: "promise_all (map (saveNewMessageBatcher_add env) ?ms) = Inr (map (\<lambda>x. ()) ?ms)"
    by (simp only: promise_all_map_Inr)
  note ok = run_ok [OF assms(3) unseen assms(2,5) bufs atts assms(11) us]
  have new: "newMessages w (continueDownloadingOnboardingStory env w) = ?ms"
    using ok(4) by (rule newMessages_eq)
  have story: "type_msg x = ''story'' \<and> readStatus x = Unread \<and> seenStatus x = Unseen \<and>
      canReplyToStory x = False" if "x \<in> set ?ms" for x
  proof -
    from storyMessages_member [OF that] obtain w' a k
      where "x = fst (newStoryMessage env c w' a k)"
      by blast
    then show ?thesis by simp
  qed
  have "length ?ms = 2" by (simp del: storyMessages.simps)
  with story show ?thesis
    unfolding new by (simp add: ok(1,2,3) names assms(6) del: storyMessages.simps)
qed

theorem end_to_end_witness:
  "hasViewedOnboardingStory (storage fresh_world) = Some False \<and>
   existingOnboardingStoryMessageIds (storage fresh_world) = None \<and>
   server demo_env = Some demo_server \<and>
   getLocale demo_env = ''en'' \<and>
   getOnboardingStoryManifest demo_server = Inr demo_manifest \<and>
   version demo_manifest = ''v1'' \<and>
   languages demo_manifest ''en'' = Some [''1.jpg'', ''2.jpg''] \<and>
   downloadOnboardingStories demo_server ''v1'' (Filenames [''1.jpg'', ''2.jpg'']) =
     Inr [[0xFF, 0xD8, 1], [0xFF, 0xD8, 2]] \<and>
   fst (continueDownloadingOnboardingStory demo_env fresh_world) = Inr () \<and>
   length (newMessages fresh_world
     (continueDownloadingOnboardingStory demo_env fresh_world)) = 2 \<and>
   existingOnboardingStoryMessageIds
     (storage (snd (continueDownloadingOnboardingStory demo_env fresh_world))) =
     Some (map id_msg (newMessages fresh_world
       (continueDownloadingOnboardingStory demo_env fresh_world)))"
proof -
  have batcher: "\<forall>x. saveNewMessageBatcher_add demo_env x = Inr ()"
    by (simp add: demo_collaborators)
  note hyps = fresh_world_state(1,2) demo_collaborators(1,3,4,5,6,7)
  from end_to_end [OF hyps demo_collaborators(10) demo_collaborators(10)
      demo_collaborators(11) batcher]
  have "fst (continueDownloadingOnboardingStory demo_env fresh_world) = Inr () \<and>
    length (newMessages fresh_world
     (continueDownloadingOnboardingStory demo_env fresh_world)) = 2 \<and>
    existingOnboardingStoryMessageIds
     (storage (snd (continueDownloadingOnboardingStory demo_env fresh_world))) =
     Some (map id_msg (newMessages fresh_world
       (continueDownloadingOnboardingStory demo_env fresh_world)))"
    by blast
  with hyps show ?thesis by blast
qed

subsection \<open>The commit\<close>

lemma run_not_stored:
  assumes "server env = Some srv"
    and "hasViewedOnboardingStory (storage w) \<noteq> Some True"
    and "existingOnboardingStoryMessageIds (storage w) = None"
    and "getOnboardingStoryManifest srv = Inr m"
    and "downloadOnboardingStories srv (version m) (imageFilenames (getLocale env) m) = Inr bufs"
    and "promise_all (map (processNewAttachment env \<circ> newAttachment) bufs) = Inl e \<or>
         (\<exists>atts. promise_all (map (processNewAttachment env \<circ> newAttachment) bufs) = Inr atts \<and>
            (getOrCreateSignalConversation env = Inl e \<or>
             (\<exists>c. getOrCreateSignalConversation env = Inr c \<and>
                promise_all (map (saveNewMessageBatcher_add env)
                  (fst (storyMessages env c atts 0 w))) = Inl e)))"
  shows "fst (continueDownloadingOnboardingStory env w) = Inl e"
    and "putsOf (newEvents w (continueDownloadingOnboardingStory env w)) = []"
    and "FindAndDeleteOnboardingStoryIfExists \<notin>
           set (newEvents w (continueDownloadingOnboardingStory env w))"
    and "storage (snd (continueDownloadingOnboardingStory env w)) = storage w"
proof -
  note run = run_downloaded [OF assms(1-5)]
  let ?r = "continueDownloadingOnboardingStory env w"
  let ?pre = "[StorageGet ''hasViewedOnboardingStory'',
            StorageGet ''existingOnboardingStoryMessageIds'',
            GetOnboardingStoryManifest,
            LogInfo ''downloadOnboardingStory: got manifest version:'',
            DownloadOnboardingStories (version m) (imageFilenames (getLocale env) m),
            LogInfo ''downloadOnboardingStory: downloaded stories:''] @
           map (ProcessNewAttachment \<circ> newAttachment) bufs"
  let ?conv = "[LogInfo ''downloadOnboardingStory: getting signal conversation'',
            GetOrCreateSignalConversation]"
  from assms(6) have "fst ?r = Inl e \<and> storage (snd ?r) = storage w \<and>
      (\<exists>ms. newEvents w ?r = ?pre \<or> newEvents w ?r = ?pre @ ?conv \<or>
         newEvents w ?r = ?pre @ ?conv @ map SaveNewMessage ms)"
  proof (elim disjE exE conjE)
    assume "promise_all (map (processNewAttachment env \<circ> newAttachment) bufs) = Inl e"
    then have "?r = (Inl e, emits ?pre w)"
      by (simp add: run ingest_rejected emits_def)
    then show ?thesis by (simp add: newEvents_eq)
  next
    fix atts
    assume "promise_all (map (processNewAttachment env \<circ> newAttachment) bufs) = Inr atts"
      and "getOrCreateSignalConversation env = Inl e"
    then have "?r = (Inl e, emits (?pre @ ?conv) w)"
      by (simp add: run conversation_rejected emits_def)
    then show ?thesis by (simp add: newEvents_eq)
  next
    fix atts c
    assume atts: "promise_all (map (processNewAttachment env \<circ> newAttachment) bufs) = Inr atts"
      and c: "getOrCreateSignalConversation env = Inr c"
      and rejected: "promise_all (map (saveNewMessageBatcher_add env)
                  (fst (storyMessages env c atts 0 w))) = Inl e"
    note parts = run ingest_ok [OF atts c] saveAndCommit_rejected [OF rejected]
    have "trace (snd ?r) =
        trace w @ ?pre @ ?conv @ map SaveNewMessage (fst (storyMessages env c atts 0 w))"
      by (simp add: parts)
    then have "newEvents w ?r =
        ?pre @ ?conv @ map SaveNewMessage (fst (storyMessages env c atts 0 w))"
      by (rule newEvents_eq)
    moreover have "fst ?r = Inl e" and "storage (snd ?r) = storage w"
      by (simp_all add: parts)
    ultimately show ?thesis by blast
  qed
  then obtain ms where r: "fst ?r = Inl e" "storage (snd ?r) = storage w"
    and ev: "newEvents w ?r = ?pre \<or> newEvents w ?r = ?pre @ ?conv \<or>
         newEvents w ?r = ?pre @ ?conv @ map SaveNewMessage ms"
    by blast
  from r show "fst ?r = Inl e" and "storage (snd ?r) = storage w"
    by simp_all
  from ev show "putsOf (newEvents w ?r) = []"
    by (elim disjE) simp_all
  from ev show "FindAndDeleteOnboardingStoryIfExists \<notin> set (newEvents w ?r)"
    by (elim disjE) auto
qed

lemma run_outcomes:
  assumes "server env = Some srv"
    and "hasViewedOnboardingStory (storage w) \<noteq> Some True"
    and "existingOnboardingStoryMessageIds (storage w) = None"
    and "getOnboardingStoryManifest srv = Inr m"
    and "downloadOnboardingStories srv (version m) (imageFilenames (getLocale env) m) = Inr bufs"
  shows "(\<exists>e. promise_all (map (processNewAttachment env \<circ> newAttachment) bufs) = Inl e \<or>
         (\<exists>atts. promise_all (map (processNewAttachment env \<circ> newAttachment) bufs) = Inr atts \<and>
            (getOrCreateSignalConversation env = Inl e \<or>
             (\<exists>c. getOrCreateSignalConversation env = Inr c \<and>
                promise_all (map (saveNewMessageBatcher_add env)
                  (fst (storyMessages env c atts 0 w))) = Inl e)))) \<or>
         (\<exists>atts c us.
           promise_all (map (processNewAttachment env \<circ> newAttachment) bufs) = Inr atts \<and>
           getOrCreateSignalConversation env = Inr c \<and>
           promise_all (map (saveNewMessageBatcher_add env)
             (fst (storyMessages env c atts 0 w))) = Inr us)"
proof (cases "promise_all (map (processNewAttachment env \<circ> newAttachment) bufs)")
  case (Inl e)
  then show ?thesis by blast
next
  case atts: (Inr atts)
  show ?thesis
  proof (cases "getOrCreateSignalConversation env")
    case (Inl e)
    with atts show ?thesis by blast
  next
    case c: (Inr c)
    show ?thesis
    proof (cases "promise_all (map (saveNewMessageBatcher_add env)
             (fst (storyMessages env c atts 0 w)))")
      case (Inl e)
      with atts c show ?thesis by blast
    next
      case (Inr us)
      with atts c show ?thesis by blast
    qed
  qed
qed

lemma run_commit:
  "(putsOf (newEvents w (continueDownloadingOnboardingStory env w)) = [] \<and>
    (FindAndDeleteOnboardingStoryIfExists \<notin>
       set (newEvents w (continueDownloadingOnboardingStory env w)) \<longrightarrow>
     storage (snd (continueDownloadingOnboardingStory env w)) = storage w)) \<or>
   (\<exists>pre ids.
      newEvents w (continueDownloadingOnboardingStory env w) =
        pre @ [StoragePut ''existingOnboardingStoryMessageIds'' ids,
               LogInfo ''downloadOnboardingStory: done''] \<and>
      putsOf pre = [] \<and>
      savesOf pre = savesOf (newEvents w (continueDownloadingOnboardingStory env w)) \<and>
      fst (continueDownloadingOnboardingStory env w) = Inr () \<and>
      (\<forall>x\<in>set (savesOf (newEvents w (continueDownloadingOnboardingStory env w))).
         saveNewMessageBatcher_add env x = Inr () \<and>
         x \<in> set (messages (snd (continueDownloadingOnboardingStory env w)))) \<and>
      storage (snd (continueDownloadingOnboardingStory env w)) =
        (storage w)\<lparr>existingOnboardingStoryMessageIds := Some ids\<rparr>)"
  (is "?quiet \<or> ?commit")
proof (cases "server env")
  case None
  then have ?quiet
    by (simp add: continueDownloadingOnboardingStory_def strictAssert_def newEvents_def)
  then show ?thesis ..
next
  case (Some srv)
  show ?thesis
  proof (cases "hasViewedOnboardingStory (storage w) = Some True")
    case True
    with Some have "continueDownloadingOnboardingStory env w =
        runCleanup env (emit (StorageGet ''hasViewedOnboardingStory'') w)"
      by (simp add: continueDownloadingOnboardingStory_def strictAssert_def
          truthy_bool_def Let_def)
    then have ?quiet by (simp add: newEvents_eq)
    then show ?thesis ..
  next
    case unseen: False
    show ?thesis
    proof (cases "existingOnboardingStoryMessageIds (storage w)")
      case (Some ids)
      then have "existingOnboardingStoryMessageIds (storage w) \<noteq> None" by simp
      with \<open>server env = Some srv\<close> unseen
      have "continueDownloadingOnboardingStory env w =
        (Inr (), emits [StorageGet ''hasViewedOnboardingStory'',
           StorageGet ''existingOnboardingStoryMessageIds'',
           LogInfo ''downloadOnboardingStory: has existingOnboardingStoryMessageIds''] w)"
        by (simp add: continueDownloadingOnboardingStory_def strictAssert_def truthy_bool_def
          truthy_array_def Let_def emit_def emits_def)
      then have ?quiet by (simp add: newEvents_eq)
      then show ?thesis ..
    next
      case None
      note reach = \<open>server env = Some srv\<close> unseen None
      show ?thesis
      proof (cases "getOnboardingStoryManifest srv")
        case (Inl e)
        from run_manifest_rejected [OF reach Inl] have ?quiet
          by (simp add: newEvents_eq)
        then show ?thesis ..
      next
        case m: (Inr m)
        show ?thesis
        proof (cases "downloadOnboardingStories srv (version m)
                        (imageFilenames (getLocale env) m)")
          case (Inl e)
          from run_download_rejected [OF reach m Inl] have ?quiet
            by (simp add: newEvents_eq)
          then show ?thesis ..
        next
          case (Inr bufs)
          from run_outcomes [OF reach m Inr] show ?thesis
          proof
            assume "\<exists>e. promise_all (map (processNewAttachment env \<circ> newAttachment) bufs) = Inl e \<or>
              (\<exists>atts. promise_all (map (processNewAttachment env \<circ> newAttachment) bufs) = Inr atts \<and>
                (getOrCreateSignalConversation env = Inl e \<or>
                 (\<exists>c. getOrCreateSignalConversation env = Inr c \<and>
                    promise_all (map (saveNewMessageBatcher_add env)
                      (fst (storyMessages env c atts 0 w))) = Inl e)))"
            then obtain e where "promise_all (map (processNewAttachment env \<circ> newAttachment) bufs) = Inl e \<or>
              (\<exists>atts. promise_all (map (processNewAttachment env \<circ> newAttachment) bufs) = Inr atts \<and>
                (getOrCreateSignalConversation env = Inl e \<or>
                 (\<exists>c. getOrCreateSignalConversation env = Inr c \<and>
                    promise_all (map (saveNewMessageBatcher_add env)
                      (fst (storyMessages env c atts 0 w))) = Inl e)))" ..
            from run_not_stored(2,4) [OF reach m Inr this] have ?quiet
              by simp
            then show ?thesis ..
          next
            assume "\<exists>atts c us.
              promise_all (map (processNewAttachment env \<circ> newAttachment) bufs) = Inr atts \<and>
              getOrCreateSignalConversation env = Inr c \<and>
              promise_all (map (saveNewMessageBatcher_add env)
                (fst (storyMessages env c atts 0 w))) = Inr us"
            then obtain atts c us
              where atts: "promise_all (map (processNewAttachment env \<circ> newAttachment) bufs) =
                  Inr atts"
                and c: "getOrCreateSignalConversation env = Inr c"
                and us: "promise_all (map (saveNewMessageBatcher_add env)
                  (fst (storyMessages env c atts 0 w))) = Inr us"
              by blast
            let ?ms = "fst (storyMessages env c atts 0 w)"
            let ?pre = "[StorageGet ''hasViewedOnboardingStory'',
                StorageGet ''existingOnboardingStoryMessageIds'',
                GetOnboardingStoryManifest,
                LogInfo ''downloadOnboardingStory: got manifest version:'',
                DownloadOnboardingStories (version m) (imageFilenames (getLocale env) m),
                LogInfo ''downloadOnboardingStory: downloaded stories:''] @
               map (ProcessNewAttachment \<circ> newAttachment) bufs @
               [LogInfo ''downloadOnboardingStory: getting signal conversation'',
                GetOrCreateSignalConversation] @
               map SaveNewMessage ?ms @ map (\<lambda>m. TriggerChange (id_msg m)) ?ms"
            note ok = run_ok [OF reach m Inr atts c us]
            have events: "newEvents w (continueDownloadingOnboardingStory env w) =
                ?pre @ [StoragePut ''existingOnboardingStoryMessageIds'' (map id_msg ?ms),
                        LogInfo ''downloadOnboardingStory: done'']"
              by (simp add: ok(2))
            have quiet: "putsOf ?pre = []"
              by simp
            have saves: "savesOf ?pre = ?ms"
              by simp
            have all: "savesOf (newEvents w (continueDownloadingOnboardingStory env w)) = ?ms"
              by (simp add: ok(2))
            have "r = Inr ()" if "\<not> isl r" for r :: "error + unit"
              using that by (cases r) simp_all
            with resolved_all [OF us]
            have resolved: "\<forall>x\<in>set ?ms. saveNewMessageBatcher_add env x = Inr ()"
              by blast
            have stored: "\<forall>x\<in>set ?ms.
                x \<in> set (messages (snd (continueDownloadingOnboardingStory env w)))"
              by (simp add: ok(4))
            from events quiet saves all resolved stored ok(1,3) have ?commit
              by (intro exI [of _ ?pre] exI [of _ "map id_msg ?ms"]) simp
            then show ?thesis ..
          qed
        qed
      qed
    qed
  qed
qed

lemma run_fetch_rejected:
  assumes "server env = Some srv"
    and "hasViewedOnboardingStory (storage w) \<noteq> Some True"
    and "existingOnboardingStoryMessageIds (storage w) = None"
  shows "getOnboardingStoryManifest srv = Inl e \<Longrightarrow>
           fst (continueDownloadingOnboardingStory env w) = Inl e \<and>
           storage (snd (continueDownloadingOnboardingStory env w)) = storage w \<and>
           messages (snd (continueDownloadingOnboardingStory env w)) = messages w"
    and "getOnboardingStoryManifest srv = Inr m \<Longrightarrow>
         downloadOnboardingStories srv (version m) (imageFilenames (getLocale env) m) = Inl e \<Longrightarrow>
           fst (continueDownloadingOnboardingStory env w) = Inl e \<and>
           storage (snd (continueDownloadingOnboardingStory env w)) = storage w \<and>
           messages (snd (continueDownloadingOnboardingStory env w)) = messages w"
    and "getOnboardingStoryManifest srv = Inr m \<Longrightarrow>
         downloadOnboardingStories srv (version m) (imageFilenames (getLocale env) m) = Inr bufs \<Longrightarrow>
         b \<in> set bufs \<Longrightarrow> processNewAttachment env (newAttachment b) = Inl e \<Longrightarrow>
           (\<exists>b' e'. b' \<in> set bufs \<and> processNewAttachment env (newAttachment b') = Inl e' \<and>
              fst (continueDownloadingOnboardingStory env w) = Inl e') \<and>
           storage (snd (continueDownloadingOnboardingStory env w)) = storage w \<and>
           messages (snd (continueDownloadingOnboardingStory env w)) = messages w"
proof -
  show "fst (continueDownloadingOnboardingStory env w) = Inl e \<and>
           storage (snd (continueDownloadingOnboardingStory env w)) = storage w \<and>
           messages (snd (continueDownloadingOnboardingStory env w)) = messages w"
    if "getOnboardingStoryManifest srv = Inl e"
    by (simp add: run_manifest_rejected [OF assms that])
  show "fst (continueDownloadingOnboardingStory env w) = Inl e \<and>
           storage (snd (continueDownloadingOnboardingStory env w)) = storage w \<and>
           messages (snd (continueDownloadingOnboardingStory env w)) = messages w"
    if "getOnboardingStoryManifest srv = Inr m" and
      "downloadOnboardingStories srv (version m) (imageFilenames (getLocale env) m) = Inl e"
    by (simp add: run_download_rejected [OF assms that])
  show "(\<exists>b' e'. b' \<in> set bufs \<and> processNewAttachment env (newAttachment b') = Inl e' \<and>
              fst (continueDownloadingOnboardingStory env w) = Inl e') \<and>
           storage (snd (continueDownloadingOnboardingStory env w)) = storage w \<and>
           messages (snd (continueDownloadingOnboardingStory env w)) = messages w"
    if m: "getOnboardingStoryManifest srv = Inr m" and
      bufs: "downloadOnboardingStories srv (version m) (imageFilenames (getLocale env) m) =
        Inr bufs" and
      b: "b \<in> set bufs" and e: "processNewAttachment env (newAttachment b) = Inl e"
  proof -
    from b e have "Inl e \<in> set (map (processNewAttachment env \<circ> newAttachment) bufs)"
      by force
    from promise_all_rejects [OF this] obtain e'
      where rejected: "promise_all (map (processNewAttachment env \<circ> newAttachment) bufs) = Inl e'"
      by blast
    from promise_all_Inl [OF this] obtain b'
      where "b' \<in> set bufs" and "processNewAttachment env (newAttachment b') = Inl e'"
      by auto
    moreover have "continueDownloadingOnboardingStory env w =
        ingestAndStore env bufs
             (emits [StorageGet ''hasViewedOnboardingStory'',
                     StorageGet ''existingOnboardingStoryMessageIds'',
                     GetOnboardingStoryManifest,
                     LogInfo ''downloadOnboardingStory: got manifest version:'',
                     DownloadOnboardingStories (version m)
                       (imageFilenames (getLocale env) m)] w)"
      by (rule run_downloaded [OF assms m bufs])
    ultimately show ?thesis
      by (auto simp add: ingest_rejected [OF rejected])
  qed
qed

text \<open>
  C5. In every run of the continuation, the code puts no storage key, or it puts exactly
  one, \<open>existingOnboardingStoryMessageIds\<close>, as its last call but the final log line:
  then every message was handed to the batcher before that put, every one of those
  writes has resolved and its message is in the store, and the run completes. Without a
  put of its own (and without the call of the cleanup, which works on the storage by
  itself) the storage is the one the run started with. So, in a run that reaches the
  manifest fetch: when the fetch, the download or the ingestion of some buffer is
  rejected, the continuation ends with that error (for the ingestion: with the error of
  one of the rejected buffers), the storage and the message store are unchanged, and
  \<open>existingOnboardingStoryMessageIds\<close> is still unset.
\<close>

theorem commit_after_writes:
  "((putsOf (newEvents w (continueDownloadingOnboardingStory env w)) = [] \<and>
     (FindAndDeleteOnboardingStoryIfExists \<notin>
        set (newEvents w (continueDownloadingOnboardingStory env w)) \<longrightarrow>
      storage (snd (continueDownloadingOnboardingStory env w)) = storage w)) \<or>
    (\<exists>pre ids.
       newEvents w (continueDownloadingOnboardingStory env w) =
         pre @ [StoragePut ''existingOnboardingStoryMessageIds'' ids,
                LogInfo ''downloadOnboardingStory: done''] \<and>
       putsOf pre = [] \<and>
       savesOf pre = savesOf (newEvents w (continueDownloadingOnboardingStory env w)) \<and>
       fst (continueDownloadingOnboardingStory env w) = Inr () \<and>
       (\<forall>x\<in>set (savesOf (newEvents w (continueDownloadingOnboardingStory env w))).
          saveNewMessageBatcher_add env x = Inr () \<and>
          x \<in> set (messages (snd (continueDownloadingOnboardingStory env w)))) \<and>
       storage (snd (continueDownloadingOnboardingStory env w)) =
         (storage w)\<lparr>existingOnboardingStoryMessageIds := Some ids\<rparr>)) \<and>
   (server env = Some srv \<longrightarrow>
    hasViewedOnboardingStory (storage w) \<noteq> Some True \<longrightarrow>
    existingOnboardingStoryMessageIds (storage w) = None \<longrightarrow>
      (\<forall>e. getOnboardingStoryManifest srv = Inl e \<longrightarrow>
         fst (continueDownloadingOnboardingStory env w) = Inl e \<and>
         storage (snd (continueDownloadingOnboardingStory env w)) = storage w \<and>
         existingOnboardingStoryMessageIds
           (storage (snd (continueDownloadingOnboardingStory env w))) = None \<and>
         messages (snd (continueDownloadingOnboardingStory env w)) = messages w) \<and>
      (\<forall>m e. getOnboardingStoryManifest srv = Inr m \<longrightarrow>
         downloadOnboardingStories srv (version m) (imageFilenames (getLocale env) m) = Inl e \<longrightarrow>
         fst (continueDownloadingOnboardingStory env w) = Inl e \<and>
         storage (snd (continueDownloadingOnboardingStory env w)) = storage w \<and>
         existingOnboardingStoryMessageIds
           (storage (snd (continueDownloadingOnboardingStory env w))) = None \<and>
         messages (snd (continueDownloadingOnboardingStory env w)) = messages w) \<and>
      (\<forall>m bufs b e. getOnboardingStoryManifest srv = Inr m \<longrightarrow>
         downloadOnboardingStories srv (version m) (imageFilenames (getLocale env) m) =
           Inr bufs \<longrightarrow>
         b \<in> set bufs \<longrightarrow> processNewAttachment env (newAttachment b) = Inl e \<longrightarrow>
         (\<exists>b' e'. b' \<in> set bufs \<and> processNewAttachment env (newAttachment b') = Inl e' \<and>
            fst (continueDownloadingOnboardingStory env w) = Inl e') \<and>
         storage (snd (continueDownloadingOnboardingStory env w)) = storage w \<and>
         existingOnboardingStoryMessageIds
           (storage (snd (continueDownloadingOnboardingStory env w))) = None \<and>
         messages (snd (continueDownloadingOnboardingStory env w)) = messages w))"
proof (intro conjI impI allI)
  show "(putsOf (newEvents w (continueDownloadingOnboardingStory env w)) = [] \<and>
     (FindAndDeleteOnboardingStoryIfExists \<notin>
        set (newEvents w (continueDownloadingOnboardingStory env w)) \<longrightarrow>
      storage (snd (continueDownloadingOnboardingStory env w)) = storage w)) \<or>
    (\<exists>pre ids.
       newEvents w (continueDownloadingOnboardingStory env w) =
         pre @ [StoragePut ''existingOnboardingStoryMessageIds'' ids,
                LogInfo ''downloadOnboardingStory: done''] \<and>
       putsOf pre = [] \<and>
       savesOf pre = savesOf (newEvents w (continueDownloadingOnboardingStory env w)) \<and>
       fst (continueDownloadingOnboardingStory env w) = Inr () \<and>
       (\<forall>x\<in>set (savesOf (newEvents w (continueDownloadingOnboardingStory env w))).
          saveNewMessageBatcher_add env x = Inr () \<and>
          x \<in> set (messages (snd (continueDownloadingOnboardingStory env w)))) \<and>
       storage (snd (continueDownloadingOnboardingStory env w)) =
         (storage w)\<lparr>existingOnboardingStoryMessageIds := Some ids\<rparr>)"
    by (rule run_commit)
next
  fix e
  assume reach: "server env = Some srv" "hasViewedOnboardingStory (storage w) \<noteq> Some True"
    "existingOnboardingStoryMessageIds (storage w) = None"
    and rejected: "getOnboardingStoryManifest srv = Inl e"
  note failed = run_fetch_rejected(1) [OF reach rejected]
  from failed show "fst (continueDownloadingOnboardingStory env w) = Inl e" by simp
  from failed show "storage (snd (continueDownloadingOnboardingStory env w)) = storage w"
    by simp
  from failed reach(3) show "existingOnboardingStoryMessageIds
      (storage (snd (continueDownloadingOnboardingStory env w))) = None"
    by simp
  from failed show "messages (snd (continueDownloadingOnboardingStory env w)) = messages w"
    by simp
next
  fix m e
  assume reach: "server env = Some srv" "hasViewedOnboardingStory (storage w) \<noteq> Some True"
    "existingOnboardingStoryMessageIds (storage w) = None"
    and rejected: "getOnboardingStoryManifest srv = Inr m"
      "downloadOnboardingStories srv (version m) (imageFilenames (getLocale env) m) = Inl e"
  note failed = run_fetch_rejected(2) [OF reach rejected]
  from failed show "fst (continueDownloadingOnboardingStory env w) = Inl e" by simp
  from failed show "storage (snd (continueDownloadingOnboardingStory env w)) = storage w"
    by simp
  from failed reach(3) show "existingOnboardingStoryMessageIds
      (storage (snd (continueDownloadingOnboardingStory env w))) = None"
    by simp
  from failed show "messages (snd (continueDownloadingOnboardingStory env w)) = messages w"
    by simp
next
  fix m bufs b e
  assume reach: "server env = Some srv" "hasViewedOnboardingStory (storage w) \<noteq> Some True"
    "existingOnboardingStoryMessageIds (storage w) = None"
    and rejected: "getOnboardingStoryManifest srv = Inr m"
      "downloadOnboardingStories srv (version m) (imageFilenames (getLocale env) m) = Inr bufs"
      "b \<in> set bufs" "processNewAttachment env (newAttachment b) = Inl e"
  note failed = run_fetch_rejected(3) [OF reach rejected]
  from failed show "\<exists>b' e'. b' \<in> set bufs \<and>
      processNewAttachment env (newAttachment b') = Inl e' \<and>
      fst (continueDownloadingOnboardingStory env w) = Inl e'"
    by simp
  from failed show "storage (snd (continueDownloadingOnboardingStory env w)) = storage w"
    by simp
  from failed reach(3) show "existingOnboardingStoryMessageIds
      (storage (snd (continueDownloadingOnboardingStory env w))) = None"
    by simp
  from failed show "messages (snd (continueDownloadingOnboardingStory env w)) = messages w"
    by simp
qed

theorem commit_after_writes_witness:
  "putsOf (newEvents fresh_world (continueDownloadingOnboardingStory demo_env fresh_world)) =
     [(''existingOnboardingStoryMessageIds'', [''id-0'', ''id-1''])] \<and>
   (\<exists>pre ids.
      newEvents fresh_world (continueDownloadingOnboardingStory demo_env fresh_world) =
        pre @ [StoragePut ''existingOnboardingStoryMessageIds'' ids,
               LogInfo ''downloadOnboardingStory: done''] \<and>
      putsOf pre = [] \<and>
      savesOf pre =
        savesOf (newEvents fresh_world
          (continueDownloadingOnboardingStory demo_env fresh_world))) \<and>
   server french_env =
     Some (demo_server\<lparr>getOnboardingStoryManifest :=
       Inr \<lparr>version = ''v1'', languages = [''fr'' \<mapsto> [''1.jpg'']]\<rparr>\<rparr>) \<and>
   hasViewedOnboardingStory (storage fresh_world) \<noteq> Some True \<and>
   existingOnboardingStoryMessageIds (storage fresh_world) = None \<and>
   fst (continueDownloadingOnboardingStory french_env fresh_world) =
     Inl (TransportError ''no filenames'') \<and>
   storage (snd (continueDownloadingOnboardingStory french_env fresh_world)) =
     storage fresh_world"
proof -
  let ?m = "\<lparr>version = ''v1'', languages = [''fr'' \<mapsto> [''1.jpg'']]\<rparr>"
  let ?srv = "demo_server\<lparr>getOnboardingStoryManifest := Inr ?m\<rparr>"
  have put: "putsOf (newEvents fresh_world
      (continueDownloadingOnboardingStory demo_env fresh_world)) =
      [(''existingOnboardingStoryMessageIds'', [''id-0'', ''id-1''])]"
    by (simp add: run_defs demo_defs)
  with commit_after_writes [of fresh_world demo_env demo_server]
  have commit: "\<exists>pre ids.
      newEvents fresh_world (continueDownloadingOnboardingStory demo_env fresh_world) =
        pre @ [StoragePut ''existingOnboardingStoryMessageIds'' ids,
               LogInfo ''downloadOnboardingStory: done''] \<and>
      putsOf pre = [] \<and>
      savesOf pre =
        savesOf (newEvents fresh_world
          (continueDownloadingOnboardingStory demo_env fresh_world))"
    by auto
  have initialized: "server french_env = Some ?srv"
    by (simp add: french_env_def)
  have unseen: "hasViewedOnboardingStory (storage fresh_world) \<noteq> Some True"
    by (simp add: fresh_world_state)
  have manifest: "getOnboardingStoryManifest ?srv = Inr ?m"
    by simp
  have rejects: "downloadOnboardingStories ?srv (version ?m)
      (imageFilenames (getLocale french_env) ?m) = Inl (TransportError ''no filenames'')"
    by (simp add: demo_server_def french_env_def imageFilenames_def hasProperty_def
        getProperty_def objectPrototypeNames_def)
  from commit_after_writes [of fresh_world french_env ?srv]
    initialized unseen fresh_world_state(2) manifest rejects
  have "fst (continueDownloadingOnboardingStory french_env fresh_world) =
     Inl (TransportError ''no filenames'') \<and>
   storage (snd (continueDownloadingOnboardingStory french_env fresh_world)) =
     storage fresh_world"
    by blast
  with put commit initialized unseen fresh_world_state(2) show ?thesis
    by blast
qed

end
